theory Spec2Isabelle
  imports Complex_Main "HOL-Library.AList"
begin

section \<open>Python values, errors and library functions used by \<open>export_data.py\<close>\<close>

text \<open>
  A Python float is a real number; there is no NaN, no infinity and no signed zero. The
  rounding of an arithmetic result to the nearest double is the function \<open>float_round\<close>.
  It is applied to the arithmetic of the direction-angle expression (the coordinate
  differences, the conversion to degrees, \<^verbatim>\<open>%\<close> and the subtraction from 360) and of
  the size-change statistic (the loop's subtractions and additions and the final
  division). The library functions \<^verbatim>\<open>math.dist\<close> and \<^verbatim>\<open>math.atan2\<close> and the other sums
  and quotients return the exact real result.
  Every exception the module can raise is a value of \<open>error\<close>; the three
  \<^verbatim>\<open>raise Exception(msg)\<close> statements keep their message.
\<close>

datatype error =
    Exception string
  | IndexError
  | ValueError
  | ZeroDivisionError
  | StopIteration
  | KeyError
  | TypeError

type_synonym point = "real \<times> real"

text \<open>A value stored in a statistics dictionary: a float, a string, a cell id or \<open>None\<close>.\<close>

datatype stat = Num real | Text string | CellId int | NoneValue

type_synonym stats = "(string \<times> stat) list"

definition bind_err :: "error + 'a \<Rightarrow> ('a \<Rightarrow> error + 'b) \<Rightarrow> error + 'b" where
  "bind_err m f = (case m of Inl e \<Rightarrow> Inl e | Inr v \<Rightarrow> f v)"

text \<open>\<^verbatim>\<open>stats[k] = v\<close> on an insertion-ordered dict: replace in place, or append.\<close>

definition dict_set :: "stats \<Rightarrow> string \<times> stat \<Rightarrow> stats" where
  "dict_set d kv = AList.update (fst kv) (snd kv) d"

definition dict_of :: "(string \<times> stat) list \<Rightarrow> stats" where
  "dict_of kvs = foldl dict_set [] kvs"

definition math_dist :: "point \<Rightarrow> point \<Rightarrow> real" where
  "math_dist p q = sqrt ((fst p - fst q)\<^sup>2 + (snd p - snd q)\<^sup>2)"

definition math_atan2 :: "real \<Rightarrow> real \<Rightarrow> real" where
  "math_atan2 y x =
     (if 0 < x then arctan (y / x)
      else if x < 0 then (if 0 \<le> y then arctan (y / x) + pi else arctan (y / x) - pi)
      else if 0 < y then pi / 2
      else if y < 0 then - (pi / 2)
      else 0)"

text \<open>Python's \<^verbatim>\<open>round\<close> of a float: to the nearest integer, halves to the even one.\<close>

definition py_round :: "real \<Rightarrow> int" where
  "py_round r =
     (let f = \<lfloor>r\<rfloor>; d = r - of_int f
      in if d < 1 / 2 then f else if 1 / 2 < d then f + 1
         else if even f then f else f + 1)"

text \<open>
  Rounding to the nearest double, ties to the even significand: \<open>x\<close> is rounded on the
  grid of its binade, whose spacing is \<open>2^(e - 52)\<close> for \<open>2^e \<le> |x| < 2^(e + 1)\<close>. The
  exponent is unbounded (no overflow, no subnormal numbers).
\<close>

definition pow2 :: "int \<Rightarrow> real" where
  "pow2 k = (if 0 \<le> k then 2 ^ nat k else 1 / 2 ^ nat (- k))"

definition float_round :: "real \<Rightarrow> real" where
  "float_round x =
     (if x = 0 then 0
      else (let u = pow2 (\<lfloor>log 2 \<bar>x\<bar>\<rfloor> - 52)
            in u * of_int (py_round (x / u))))"

text \<open>
  Python's \<^verbatim>\<open>a % b\<close> on floats: C's \<open>fmod\<close>, which is exact and has the sign of \<open>a\<close>,
  then \<^verbatim>\<open>mod += b\<close>, which rounds, when the remainder is non-zero and its sign differs
  from that of \<open>b\<close>.
\<close>

definition math_fmod :: "real \<Rightarrow> real \<Rightarrow> real" where
  "math_fmod a b = a - b * of_int (if 0 \<le> a / b then \<lfloor>a / b\<rfloor> else \<lceil>a / b\<rceil>)"

definition float_mod :: "real \<Rightarrow> real \<Rightarrow> real" where
  "float_mod a b =
     (let m = math_fmod a b
      in if m \<noteq> 0 \<and> (b < 0) \<noteq> (m < 0) then float_round (m + b) else m)"

text \<open>
  The expression \<^verbatim>\<open>360 - ((math.atan2(y - py, x - px) * (180 / math.pi)) % 360)\<close>,
  written three times in the source, for the step from \<open>p\<close> to \<open>q\<close>.
\<close>

definition direction_angle :: "point \<Rightarrow> point \<Rightarrow> real" where
  "direction_angle p q =
     float_round (360 - float_mod
       (float_round (math_atan2 (float_round (snd q - snd p)) (float_round (fst q - fst p))
          * float_round (180 / float_round pi))) 360)"

definition py_div :: "real \<Rightarrow> real \<Rightarrow> error + real" where
  "py_div a b = (if b = 0 then Inl ZeroDivisionError else Inr (a / b))"

text \<open>The division of the size-change statistic, with its rounding.\<close>

definition float_div :: "real \<Rightarrow> real \<Rightarrow> error + real" where
  "float_div a b = (if b = 0 then Inl ZeroDivisionError else Inr (float_round (a / b)))"

definition py_max :: "real list \<Rightarrow> error + real" where
  "py_max xs = (case xs of [] \<Rightarrow> Inl ValueError | a # as \<Rightarrow> Inr (fold max as a))"

definition py_min :: "real list \<Rightarrow> error + real" where
  "py_min xs = (case xs of [] \<Rightarrow> Inl ValueError | a # as \<Rightarrow> Inr (fold min as a))"

text \<open>List indexing with Python's negative indices.\<close>

definition py_index :: "'a list \<Rightarrow> int \<Rightarrow> error + 'a" where
  "py_index xs i =
     (if 0 \<le> i \<and> i < int (length xs) then Inr (xs ! nat i)
      else if i < 0 \<and> - int (length xs) \<le> i then Inr (xs ! nat (int (length xs) + i))
      else Inl IndexError)"

definition compass_brackets :: "string list" where
  "compass_brackets = [''E'', ''NE'', ''N'', ''NW'', ''W'', ''SW'', ''S'', ''SE'', ''E'']"

definition compass_lookup :: "real \<Rightarrow> int" where
  "compass_lookup angle = py_round (angle / 45)"

section \<open>\<open>calc_individual_cell_statistics\<close>\<close>

text \<open>
  The lists \<open>speeds\<close> and \<open>angle_of_direction\<close> exist in both statistics functions;
  the single-cell one adds \<open>distances\<close>, \<open>origin_distances\<close>, \<open>final_angle\<close> and the
  loop variables \<open>x, y\<close> (the field \<open>xy\<close>), all read after the loop.
\<close>

record motion =
  speeds :: "real list"
  angle_of_direction :: "real list"

record cell_acc = motion +
  distances :: "real list"
  origin_distances :: "real list"
  final_angle :: real
  xy :: point

definition cell_acc_init :: cell_acc where
  "cell_acc_init =
     \<lparr>speeds = [], angle_of_direction = [], distances = [], origin_distances = [],
      final_angle = 0, xy = (0, 0)\<rparr>"

text \<open>
  \<^verbatim>\<open>for i in range(1, len(data))\<close>: \<open>prev\<close> is \<open>data[i-1]\<close>, the list holds
  \<open>data[i:]\<close>, and \<open>i == len(data) - 1\<close> is "no point follows".
\<close>

fun individual_loop :: "point \<Rightarrow> real \<Rightarrow> point \<Rightarrow> point list \<Rightarrow> cell_acc \<Rightarrow> error + cell_acc" where
  "individual_loop origin t prev [] acc = Inr acc"
| "individual_loop origin t prev (p # ps) acc =
     bind_err (py_div (math_dist prev p) t) (\<lambda>speed.
       individual_loop origin t p ps
         (acc\<lparr>distances := distances acc @ [math_dist prev p],
              origin_distances := origin_distances acc @ [math_dist origin p],
              speeds := speeds acc @ [speed],
              angle_of_direction := angle_of_direction acc @ [direction_angle prev p],
              final_angle := (if ps = [] then direction_angle origin p else final_angle acc),
              xy := p\<rparr>))"

text \<open>The loop \<^verbatim>\<open>for i in range(1, len(areas)): change += areas[i] - areas[i-1]\<close>.\<close>

fun change_loop :: "real \<Rightarrow> real list \<Rightarrow> real \<Rightarrow> real" where
  "change_loop prev [] change = change"
| "change_loop prev (a # as) change =
     change_loop a as (float_round (change + float_round (a - prev)))"

definition area_change :: "real list \<Rightarrow> real" where
  "area_change areas = (case areas of [] \<Rightarrow> 0 | a # as \<Rightarrow> change_loop a as 0)"

definition calc_individual_cell_statistics ::
  "point list option \<Rightarrow> real list \<Rightarrow> real \<Rightarrow> string \<Rightarrow> error + stats" where
  "calc_individual_cell_statistics data areas time_between_frames units =
     (case data of
        None \<Rightarrow> Inl (Exception ''Empy Data Set Given'')
      | Some [] \<Rightarrow> Inl IndexError
      | Some (origin # rest) \<Rightarrow>
          bind_err (individual_loop origin time_between_frames origin rest cell_acc_init) (\<lambda>acc.
          bind_err (py_max (origin_distances acc)) (\<lambda>max_origin.
          bind_err (py_div (sum_list (origin_distances acc)) (real (length (origin_distances acc)))) (\<lambda>avg_origin.
          bind_err (py_max (distances acc)) (\<lambda>max_distance.
          bind_err (py_max (speeds acc)) (\<lambda>max_speed.
          bind_err (py_div (sum_list (speeds acc)) (real (length (speeds acc)))) (\<lambda>avg_speed.
          bind_err (py_div (sum_list (angle_of_direction acc)) (real (length (angle_of_direction acc)))) (\<lambda>avg_angle.
          bind_err (py_index compass_brackets (compass_lookup (final_angle acc))) (\<lambda>compass.
          bind_err (py_max areas) (\<lambda>max_size.
          bind_err (py_min areas) (\<lambda>min_size.
          bind_err (py_div (sum_list areas) (real (length areas))) (\<lambda>avg_size.
          bind_err (py_index areas (int (length areas) - 1)) (\<lambda>last_area.
          bind_err (py_index areas 0) (\<lambda>first_area.
          bind_err (float_div (area_change areas) (real (length areas))) (\<lambda>avg_change.
          Inr (dict_of
            [(''Total Displacement ('' @ units @ '')'', Num (sum_list (distances acc))),
             (''Final Distance from Origin ('' @ units @ '')'', Num (math_dist origin (xy acc))),
             (''Maximum Distance from Origin ('' @ units @ '')'', Num max_origin),
             (''Average Distance from Origin ('' @ units @ '')'', Num avg_origin),
             (''Maximum Distance Traveled in one Interval ('' @ units @ '')'', Num max_distance),
             (''Maximum Speed ('' @ units @ ''/min)'', Num max_speed),
             (''Average Speed ('' @ units @ ''/min)'', Num avg_speed),
             (''Average Angle of Direction from Origin (degrees)'', Num avg_angle),
             (''Angle of Direction between Origin and Final Point (degrees)'', Num (final_angle acc)),
             (''Compass Direction Moved'', Text compass),
             (''Maximum Size ('' @ units @ ''^2)'', Num max_size),
             (''Minimum Size ('' @ units @ ''^2)'', Num min_size),
             (''Average Size ('' @ units @ ''^2)'', Num avg_size),
             (''Change in Cell Size ('' @ units @ ''^2)'', Num (last_area - first_area)),
             (''Average Change in Cell Size Between one Interval ('' @ units @ ''^2)'',
                Num avg_change)]))))))))))))))))"

section \<open>\<open>calc_culture_cell_statistics\<close>\<close>

text \<open>
  A dict is an association list in insertion order; cell ids are integers (the source
  initialises \<open>max_cell_id\<close> and \<open>min_cell_id\<close> with \<open>0\<close>). A trajectory may be
  \<open>None\<close>: the source tests for it.
\<close>

record culture_acc = motion +
  displacements :: "real list"
  final_distances :: "real list"

definition culture_acc_init :: culture_acc where
  "culture_acc_init =
     \<lparr>speeds = [], angle_of_direction = [], displacements = [], final_distances = []\<rparr>"

text \<open>
  The inner loop over one cell's frames. \<open>prev\<close> is \<open>data[i-1]\<close> whatever its value, the
  list argument after the points is the cell's local \<open>distances\<close>.
\<close>

fun culture_loop ::
  "point \<Rightarrow> real \<Rightarrow> point \<Rightarrow> point list \<Rightarrow> real list \<Rightarrow> culture_acc \<Rightarrow> error + culture_acc" where
  "culture_loop origin t prev [] dists acc = Inr acc"
| "culture_loop origin t prev (p # ps) dists acc =
     (if fst p \<noteq> 0 \<or> snd p \<noteq> 0 then
        bind_err (py_div (math_dist prev p) t) (\<lambda>speed.
          culture_loop origin t p ps (dists @ [math_dist prev p])
            (if ps = [] then
               acc\<lparr>speeds := speeds acc @ [speed],
                    angle_of_direction := angle_of_direction acc @ [direction_angle origin p],
                    final_distances := final_distances acc @ [math_dist origin p],
                    displacements := displacements acc @ [sum_list (dists @ [math_dist prev p])]\<rparr>
             else acc\<lparr>speeds := speeds acc @ [speed]\<rparr>))
      else culture_loop origin t p ps dists acc)"

text \<open>\<^verbatim>\<open>for key, data in positional_data.items()\<close>.\<close>

fun culture_positions ::
  "(int \<times> point list option) list \<Rightarrow> real \<Rightarrow> culture_acc \<Rightarrow> error + culture_acc" where
  "culture_positions [] t acc = Inr acc"
| "culture_positions ((key, None) # cells) t acc = culture_positions cells t acc"
| "culture_positions ((key, Some []) # cells) t acc = Inl IndexError"
| "culture_positions ((key, Some (origin # rest)) # cells) t acc =
     bind_err (culture_loop origin t origin rest [] acc) (\<lambda>acc'.
       culture_positions cells t acc')"

record size_acc =
  final_sizes :: "real list"
  growth :: "real list"
  max_cell_size :: real
  max_cell_id :: int
  min_cell_size :: "real option"
  min_cell_id :: int

definition size_acc_init :: size_acc where
  "size_acc_init =
     \<lparr>final_sizes = [], growth = [], max_cell_size = 0, max_cell_id = 0,
      min_cell_size = None, min_cell_id = 0\<rparr>"

text \<open>\<^verbatim>\<open>next(filter(lambda x: x != 0, value))\<close> and \<^verbatim>\<open>value.index(a)\<close>.\<close>

definition next_nonzero :: "real list \<Rightarrow> error + real" where
  "next_nonzero value =
     (case filter (\<lambda>x. x \<noteq> 0) value of [] \<Rightarrow> Inl StopIteration | a # _ \<Rightarrow> Inr a)"

fun list_index :: "real list \<Rightarrow> real \<Rightarrow> error + nat" where
  "list_index [] a = Inl ValueError"
| "list_index (v # vs) a =
     (if v = a then Inr 0 else bind_err (list_index vs a) (\<lambda>i. Inr (Suc i)))"

text \<open>One iteration of \<^verbatim>\<open>for key, value in area_data.items()\<close>.\<close>

definition size_step :: "size_acc \<Rightarrow> int \<times> real list \<Rightarrow> error + size_acc" where
  "size_step acc kv =
     (let key = fst kv; value = snd kv in
      bind_err (py_min value) (\<lambda>smallest.
      let acc1 =
        (if smallest \<noteq> 0 \<and> (case min_cell_size acc of None \<Rightarrow> True | Some m \<Rightarrow> smallest < m)
         then acc\<lparr>min_cell_size := Some smallest, min_cell_id := key\<rparr> else acc) in
      bind_err (py_max value) (\<lambda>largest.
      let acc2 =
        (if max_cell_size acc1 < largest
         then acc1\<lparr>max_cell_size := largest, max_cell_id := key\<rparr> else acc1) in
      bind_err (py_index value (int (length value) - 1)) (\<lambda>final_size.
      bind_err (next_nonzero value) (\<lambda>first_area.
      bind_err (list_index value first_area) (\<lambda>start_index.
      bind_err (py_index value (int start_index)) (\<lambda>start_area.
      Inr (acc2\<lparr>final_sizes := final_sizes acc2 @ [final_size],
                growth := growth acc2 @ [final_size - start_area]\<rparr>))))))))"

fun culture_sizes :: "(int \<times> real list) list \<Rightarrow> size_acc \<Rightarrow> error + size_acc" where
  "culture_sizes [] acc = Inr acc"
| "culture_sizes (kv # cells) acc =
     bind_err (size_step acc kv) (\<lambda>acc'. culture_sizes cells acc')"

text \<open>The body of \<^verbatim>\<open>if len(displacements) != 0:\<close>, on the still empty \<open>stats\<close>.\<close>

definition movement_stats :: "culture_acc \<Rightarrow> size_acc \<Rightarrow> string \<Rightarrow> error + stats" where
  "movement_stats m s units =
     bind_err (py_div (sum_list (displacements m)) (real (length (displacements m)))) (\<lambda>avg_disp.
     bind_err (py_max (displacements m)) (\<lambda>max_disp.
     bind_err (py_min (displacements m)) (\<lambda>min_disp.
     bind_err (py_div (sum_list (final_distances m)) (real (length (final_distances m)))) (\<lambda>avg_final.
     bind_err (py_div (sum_list (speeds m)) (real (length (speeds m)))) (\<lambda>avg_speed.
     bind_err (py_max (speeds m)) (\<lambda>max_speed.
     bind_err (py_min (speeds m)) (\<lambda>min_speed.
     bind_err (py_div (sum_list (angle_of_direction m)) (real (length (angle_of_direction m)))) (\<lambda>avg_angle.
     bind_err (py_index compass_brackets (compass_lookup avg_angle)) (\<lambda>compass.
     bind_err (py_div (sum_list (growth s)) (real (length (growth s)))) (\<lambda>avg_growth.
     Inr (dict_of
       [(''Average Total Displacement ('' @ units @ '')'', Num avg_disp),
        (''Max Distance Traveled by one Cell ('' @ units @ '')'', Num max_disp),
        (''Min Distance Traveled by one Cell ('' @ units @ '')'', Num min_disp),
        (''Average Final Distance from Origin ('' @ units @ '')'', Num avg_final),
        (''Average Speed ('' @ units @ ''/min)'', Num avg_speed),
        (''Maximum Recorded Speed ('' @ units @ ''/min)'', Num max_speed),
        (''Minimum Recorded Speed ('' @ units @ ''/min)'', Num min_speed),
        (''Average Angle of Direction between Origin and Final Point (degrees)'', Num avg_angle),
        (''Average Compass Direction Moved'', Text compass),
        (''Average Change in Cell Size ('' @ units @ ''^2)'', Num avg_growth)])))))))))))"

definition calc_culture_cell_statistics ::
  "(int \<times> point list option) list \<Rightarrow> (int \<times> real list) list \<Rightarrow> real \<Rightarrow> real \<Rightarrow> string
     \<Rightarrow> error + stats" where
  "calc_culture_cell_statistics positional_data area_data time_between_frames area_of_frame units =
     bind_err (culture_positions positional_data time_between_frames culture_acc_init) (\<lambda>m.
     bind_err (culture_sizes area_data size_acc_init) (\<lambda>s.
     bind_err (if displacements m \<noteq> [] then movement_stats m s units else Inr []) (\<lambda>stats.
     bind_err (py_div (sum_list (final_sizes s)) area_of_frame) (\<lambda>confluency.
     bind_err (py_div (sum_list (final_sizes s)) (real (length (final_sizes s)))) (\<lambda>avg_final_size.
     Inr (foldl dict_set stats
       [(''Final Frame's Confluency (%)'', Num confluency),
        (''Largest Cell ('' @ units @ ''^2)'', Num (max_cell_size s)),
        (''Largest Cell's ID'', CellId (max_cell_id s)),
        (''Smallest Cell ('' @ units @ ''^2)'',
           (case min_cell_size s of None \<Rightarrow> NoneValue | Some a \<Rightarrow> Num a)),
        (''Smallest Cell's ID'', CellId (min_cell_id s)),
        (''Average Final Size of Cell ('' @ units @ ''^2)'', Num avg_final_size)]))))))"

section \<open>\<open>culture_to_csv_file\<close>\<close>

text \<open>
  The file system is a map from path to the rows of the CSV file stored there;
  \<^verbatim>\<open>os.path.exists(filename)\<close> is \<open>fs filename \<noteq> None\<close>. The function returns the
  exception raised, if any, and the file system it leaves behind. Failures of
  \<^verbatim>\<open>open\<close> itself are not modelled.
\<close>

datatype csv_value = CsvText string | CsvNum real | CsvId int

type_synonym csv_file = "csv_value list list"

type_synonym filesystem = "string \<rightharpoonup> csv_file"

definition endswith :: "string \<Rightarrow> string \<Rightarrow> bool" where
  "endswith s suffix \<longleftrightarrow>
     length suffix \<le> length s \<and> drop (length s - length suffix) s = suffix"

text \<open>The loop \<^verbatim>\<open>for i in range(0, len(ids))\<close> inside the \<^verbatim>\<open>with open(...)\<close> block.\<close>

fun write_cells ::
  "int list \<Rightarrow> (int \<times> point list option) list \<Rightarrow> (int \<times> real list) list \<Rightarrow> csv_file
     \<Rightarrow> error option \<times> csv_file" where
  "write_cells [] positional_data area_data rows = (None, rows)"
| "write_cells (i # ids) positional_data area_data rows =
     (case map_of positional_data i of
        None \<Rightarrow> (Some KeyError, rows)
      | Some None \<Rightarrow> (Some TypeError, rows)
      | Some (Some coordinates) \<Rightarrow>
          (case map_of area_data i of
             None \<Rightarrow> (Some KeyError, rows)
           | Some sizes \<Rightarrow>
               write_cells ids positional_data area_data
                 (rows @ [CsvId i # concat (map (\<lambda>c. [CsvNum (fst c), CsvNum (snd c)]) coordinates)
                            @ map CsvNum sizes])))"

definition culture_to_csv_file ::
  "string \<Rightarrow> (int \<times> point list option) list \<Rightarrow> (int \<times> real list) list
     \<Rightarrow> string list option \<Rightarrow> string list option \<Rightarrow> filesystem
     \<Rightarrow> error option \<times> filesystem" where
  "culture_to_csv_file filename positional_data area_data positional_headers area_headers fs =
     (let area_headers = (case area_headers of None \<Rightarrow> [] | Some h \<Rightarrow> h);
          positional_headers = (case positional_headers of None \<Rightarrow> [] | Some h \<Rightarrow> h)
      in if \<not> endswith filename ''.csv'' then (Some (Exception ''File must be of type .csv''), fs)
         else if fs filename \<noteq> None then (Some (Exception ''File already exists''), fs)
         else (case positional_data of
                 [] \<Rightarrow> (Some IndexError, fs)
               | (_, None) # _ \<Rightarrow> (Some TypeError, fs)
               | (_, Some _) # _ \<Rightarrow>
                   (let written = write_cells (map fst positional_data) positional_data area_data
                                    [map CsvText (positional_headers @ area_headers)]
                    in (fst written, fs(filename \<mapsto> snd written)))))"

section \<open>Closed forms of the loops\<close>

text \<open>The consecutive frame pairs \<open>(data[i-1], data[i])\<close> of a trajectory, in order.\<close>

definition step_pairs :: "point \<Rightarrow> point list \<Rightarrow> (point \<times> point) list" where
  "step_pairs prev ps = zip (prev # ps) ps"

text \<open>
  What \<open>calc_individual_cell_statistics\<close> returns on a trajectory \<open>origin # rest\<close> of at
  least two points, written without the loop.
\<close>

definition individual_report :: "point \<Rightarrow> point list \<Rightarrow> real list \<Rightarrow> real \<Rightarrow> string \<Rightarrow> stats" where
  "individual_report origin rest areas t units =
     [(''Total Displacement ('' @ units @ '')'',
         Num (sum_list (map (\<lambda>(a, b). math_dist a b) (step_pairs origin rest)))),
      (''Final Distance from Origin ('' @ units @ '')'', Num (math_dist origin (last rest))),
      (''Maximum Distance from Origin ('' @ units @ '')'',
         Num (Max (set (map (math_dist origin) rest)))),
      (''Average Distance from Origin ('' @ units @ '')'',
         Num (sum_list (map (math_dist origin) rest) / real (length rest))),
      (''Maximum Distance Traveled in one Interval ('' @ units @ '')'',
         Num (Max (set (map (\<lambda>(a, b). math_dist a b) (step_pairs origin rest))))),
      (''Maximum Speed ('' @ units @ ''/min)'',
         Num (Max (set (map (\<lambda>(a, b). math_dist a b / t) (step_pairs origin rest))))),
      (''Average Speed ('' @ units @ ''/min)'',
         Num (sum_list (map (\<lambda>(a, b). math_dist a b / t) (step_pairs origin rest))
                / real (length rest))),
      (''Average Angle of Direction from Origin (degrees)'',
         Num (sum_list (map (\<lambda>(a, b). direction_angle a b) (step_pairs origin rest))
                / real (length rest))),
      (''Angle of Direction between Origin and Final Point (degrees)'',
         Num (direction_angle origin (last rest))),
      (''Compass Direction Moved'',
         Text (compass_brackets ! nat (compass_lookup (direction_angle origin (last rest))))),
      (''Maximum Size ('' @ units @ ''^2)'', Num (Max (set areas))),
      (''Minimum Size ('' @ units @ ''^2)'', Num (Min (set areas))),
      (''Average Size ('' @ units @ ''^2)'', Num (sum_list areas / real (length areas))),
      (''Change in Cell Size ('' @ units @ ''^2)'', Num (last areas - hd areas)),
      (''Average Change in Cell Size Between one Interval ('' @ units @ ''^2)'',
         Num (float_round (area_change areas / real (length areas))))]"


text \<open>
  The culture computation: what one iteration of the size loop does when it succeeds, the
  extrema it tracks, the report of a culture without displacements and its keys, and the
  inputs on which the computation returns.
\<close>

definition cell_max :: "int \<times> real list \<Rightarrow> real" where
  "cell_max kv = Max (set (snd kv))"

definition cell_min :: "int \<times> real list \<Rightarrow> real" where
  "cell_min kv = Min (set (snd kv))"

definition size_update :: "size_acc \<Rightarrow> int \<times> real list \<Rightarrow> size_acc" where
  "size_update acc kv =
     \<lparr>final_sizes = final_sizes acc @ [last (snd kv)],
      growth = growth acc @ [last (snd kv) - hd (filter (\<lambda>x. x \<noteq> 0) (snd kv))],
      max_cell_size = (if max_cell_size acc < cell_max kv then cell_max kv else max_cell_size acc),
      max_cell_id = (if max_cell_size acc < cell_max kv then fst kv else max_cell_id acc),
      min_cell_size =
        (if cell_min kv \<noteq> 0 \<and> (case min_cell_size acc of None \<Rightarrow> True | Some m \<Rightarrow> cell_min kv < m)
         then Some (cell_min kv) else min_cell_size acc),
      min_cell_id =
        (if cell_min kv \<noteq> 0 \<and> (case min_cell_size acc of None \<Rightarrow> True | Some m \<Rightarrow> cell_min kv < m)
         then fst kv else min_cell_id acc)\<rparr>"

definition largest_size :: "(int \<times> real list) list \<Rightarrow> real" where
  "largest_size cells = Max (insert 0 (cell_max ` set cells))"

definition largest_id :: "(int \<times> real list) list \<Rightarrow> int" where
  "largest_id cells =
     (case find (\<lambda>kv. 0 < largest_size cells \<and> cell_max kv = largest_size cells) cells of
        None \<Rightarrow> 0 | Some kv \<Rightarrow> fst kv)"

definition measured :: "(int \<times> real list) list \<Rightarrow> (int \<times> real list) list" where
  "measured cells = filter (\<lambda>kv. cell_min kv \<noteq> 0) cells"

definition smallest_size :: "(int \<times> real list) list \<Rightarrow> real option" where
  "smallest_size cells =
     (if measured cells = [] then None else Some (Min (cell_min ` set (measured cells))))"

definition smallest_id :: "(int \<times> real list) list \<Rightarrow> int" where
  "smallest_id cells =
     (case find (\<lambda>kv. Some (cell_min kv) = smallest_size cells) (measured cells) of
        None \<Rightarrow> 0 | Some kv \<Rightarrow> fst kv)"

definition sizes_closed :: "(int \<times> real list) list \<Rightarrow> size_acc" where
  "sizes_closed cells =
     \<lparr>final_sizes = map (\<lambda>kv. last (snd kv)) cells,
      growth = map (\<lambda>kv. last (snd kv) - hd (filter (\<lambda>x. x \<noteq> 0) (snd kv))) cells,
      max_cell_size = largest_size cells, max_cell_id = largest_id cells,
      min_cell_size = smallest_size cells, min_cell_id = smallest_id cells\<rparr>"

definition still_report :: "size_acc \<Rightarrow> real \<Rightarrow> string \<Rightarrow> stats" where
  "still_report s area_of_frame units =
     [(''Final Frame's Confluency (%)'', Num (sum_list (final_sizes s) / area_of_frame)),
      (''Largest Cell ('' @ units @ ''^2)'', Num (max_cell_size s)),
      (''Largest Cell's ID'', CellId (max_cell_id s)),
      (''Smallest Cell ('' @ units @ ''^2)'',
         (case min_cell_size s of None \<Rightarrow> NoneValue | Some a \<Rightarrow> Num a)),
      (''Smallest Cell's ID'', CellId (min_cell_id s)),
      (''Average Final Size of Cell ('' @ units @ ''^2)'',
         Num (sum_list (final_sizes s) / real (length (final_sizes s))))]"

definition movement_keys :: "string \<Rightarrow> string list" where
  "movement_keys units =
     [''Average Total Displacement ('' @ units @ '')'',
      ''Max Distance Traveled by one Cell ('' @ units @ '')'',
      ''Min Distance Traveled by one Cell ('' @ units @ '')'',
      ''Average Final Distance from Origin ('' @ units @ '')'',
      ''Average Speed ('' @ units @ ''/min)'',
      ''Maximum Recorded Speed ('' @ units @ ''/min)'',
      ''Minimum Recorded Speed ('' @ units @ ''/min)'',
      ''Average Angle of Direction between Origin and Final Point (degrees)'',
      ''Average Compass Direction Moved'',
      ''Average Change in Cell Size ('' @ units @ ''^2)'']"

definition motion_ok :: "culture_acc \<Rightarrow> bool" where
  "motion_ok m \<longleftrightarrow>
     length (angle_of_direction m) = length (displacements m) \<and>
     length (final_distances m) = length (displacements m) \<and>
     length (displacements m) \<le> length (speeds m) \<and>
     list_all (\<lambda>a. 0 \<le> a \<and> a \<le> 360) (angle_of_direction m)"

definition still_keys :: "string \<Rightarrow> string list" where
  "still_keys units =
     [''Final Frame's Confluency (%)'',
      ''Largest Cell ('' @ units @ ''^2)'',
      ''Largest Cell's ID'',
      ''Smallest Cell ('' @ units @ ''^2)'',
      ''Smallest Cell's ID'',
      ''Average Final Size of Cell ('' @ units @ ''^2)'']"

definition culture_inputs_ok ::
  "(int \<times> point list option) list \<Rightarrow> (int \<times> real list) list \<Rightarrow> real \<Rightarrow> real \<Rightarrow> bool" where
  "culture_inputs_ok positional_data area_data t area_of_frame \<longleftrightarrow>
     t \<noteq> 0 \<and> area_of_frame \<noteq> 0 \<and> area_data \<noteq> [] \<and>
     list_all (\<lambda>kv. snd kv \<noteq> Some []) positional_data \<and>
     list_all (\<lambda>kv. list_ex (\<lambda>a. a \<noteq> 0) (snd kv)) area_data"

section \<open>Library facts\<close>

lemma bind_err_simps [simp]:
  "bind_err (Inl e) f = Inl e"
  "bind_err (Inr v) f = f v"
  by (simp_all add: bind_err_def)

lemma py_round_of_int [simp]: "py_round (of_int n) = n"
  by (simp add: py_round_def)

lemma py_round_le: "r \<le> of_int n \<Longrightarrow> py_round r \<le> n"
proof -
  assume r: "r \<le> of_int n"
  then have f: "\<lfloor>r\<rfloor> \<le> n" by (simp add: floor_le_iff)
  show ?thesis
  proof (cases "\<lfloor>r\<rfloor> = n")
    case True
    then have "r = of_int n" using r by linarith
    then show ?thesis by simp
  next
    case False
    then have "\<lfloor>r\<rfloor> + 1 \<le> n" using f by linarith
    then show ?thesis by (simp add: py_round_def Let_def)
  qed
qed

lemma py_round_ge: "of_int n \<le> r \<Longrightarrow> n \<le> py_round r"
proof -
  assume "of_int n \<le> r"
  then have "n \<le> \<lfloor>r\<rfloor>" by (simp add: le_floor_iff)
  then show ?thesis by (simp add: py_round_def Let_def)
qed

lemma py_round_near: "\<bar>r - of_int n\<bar> < 1 / 2 \<Longrightarrow> py_round r = n"
proof -
  assume a: "\<bar>r - of_int n\<bar> < 1 / 2"
  show ?thesis
  proof (cases "of_int n \<le> r")
    case True
    then have "\<lfloor>r\<rfloor> = n" using a by linarith
    then show ?thesis using a True by (simp add: py_round_def Let_def)
  next
    case False
    then have "\<lfloor>r\<rfloor> = n - 1" using a by linarith
    then show ?thesis using a False by (simp add: py_round_def Let_def)
  qed
qed

lemma pow2_powr: "pow2 k = 2 powr of_int k"
  by (simp add: pow2_def powr_real_of_int inverse_eq_divide)

lemma pow2_pos [simp]: "0 < pow2 k"
  by (simp add: pow2_powr)

lemma pow2_add: "pow2 (a + b) = pow2 a * pow2 b"
  by (simp add: pow2_powr powr_add)

lemma pow2_less_iff: "pow2 a < pow2 b \<longleftrightarrow> a < b"
  by (simp add: pow2_powr)

lemma pow2_nat: "0 \<le> k \<Longrightarrow> pow2 k = 2 ^ nat k"
  by (simp add: pow2_def)

lemma float_round_binade:
  assumes "pow2 e \<le> \<bar>x\<bar>" "\<bar>x\<bar> < pow2 (e + 1)"
  shows "float_round x = pow2 (e - 52) * of_int (py_round (x / pow2 (e - 52)))"
proof -
  have pos: "0 < \<bar>x\<bar>" using assms(1) pow2_pos [of e] by linarith
  have "2 powr of_int e \<le> \<bar>x\<bar> \<and> \<bar>x\<bar> < 2 powr (of_int e + 1)"
    using assms by (simp add: pow2_powr)
  then have "\<lfloor>log 2 \<bar>x\<bar>\<rfloor> = e"
    using pos floor_log_eq_powr_iff [of "\<bar>x\<bar>" 2 e] by simp
  with pos show ?thesis by (simp add: float_round_def Let_def)
qed

lemma binade_exists:
  assumes "x \<noteq> 0"
  shows "pow2 \<lfloor>log 2 \<bar>x\<bar>\<rfloor> \<le> \<bar>x\<bar> \<and> \<bar>x\<bar> < pow2 (\<lfloor>log 2 \<bar>x\<bar>\<rfloor> + 1)"
  using assms floor_log_eq_powr_iff [of "\<bar>x\<bar>" 2 "\<lfloor>log 2 \<bar>x\<bar>\<rfloor>"] by (simp add: pow2_powr)

lemma float_round_0 [simp]: "float_round 0 = 0"
  by (simp add: float_round_def)

lemma float_round_of_int:
  assumes "\<bar>n\<bar> < 2 ^ 53"
  shows "float_round (of_int n) = of_int n"
proof (cases "n = 0")
  case True
  then show ?thesis by simp
next
  case False
  define x :: real where "x = of_int n"
  define e where "e = \<lfloor>log 2 \<bar>x\<bar>\<rfloor>"
  have x0: "x \<noteq> 0" using False by (simp add: x_def)
  from binade_exists [OF x0] have b: "pow2 e \<le> \<bar>x\<bar>" "\<bar>x\<bar> < pow2 (e + 1)"
    by (simp_all add: e_def)
  have "\<bar>x\<bar> = of_int \<bar>n\<bar>" by (simp add: x_def)
  also have "\<dots> < of_int (2 ^ 53)" using assms by (simp only: of_int_less_iff)
  also have "\<dots> = pow2 53" by (simp add: pow2_def)
  finally have "pow2 e < pow2 53" using b(1) by linarith
  then have e53: "e < 53" by (simp only: pow2_less_iff)
  define k where "k = 52 - e"
  have k0: "0 \<le> k" using e53 by (simp add: k_def)
  have "pow2 (e - 52) * pow2 k = pow2 0" unfolding pow2_add [symmetric] by (simp add: k_def)
  then have u: "pow2 (e - 52) * 2 ^ nat k = 1" using k0 by (simp add: pow2_nat)
  then have u': "pow2 (e - 52) = 1 / 2 ^ nat k" by (simp add: field_simps)
  have q: "x / pow2 (e - 52) = of_int (n * 2 ^ nat k)"
    by (simp add: u' x_def)
  have "py_round (x / pow2 (e - 52)) = n * 2 ^ nat k"
    unfolding q by (rule py_round_of_int)
  then have "float_round x = pow2 (e - 52) * of_int (n * 2 ^ nat k)"
    using float_round_binade [OF b] by (simp only:)
  also have "\<dots> = of_int n * (pow2 (e - 52) * 2 ^ nat k)" by simp
  finally show ?thesis unfolding u by (simp add: x_def)
qed

lemma float_round_numerals [simp]:
  "float_round 1 = 1" "float_round 2 = 2" "float_round 360 = 360"
  using float_round_of_int [of 1] float_round_of_int [of 2] float_round_of_int [of 360]
  by simp_all


lemma binade_scaled:
  assumes "pow2 e \<le> x" "x < pow2 (e + 1)"
  shows "of_int (2 ^ 52) \<le> x / pow2 (e - 52) \<and> x / pow2 (e - 52) \<le> of_int (2 ^ 53)"
proof -
  have "pow2 e = pow2 (e - 52 + 52)" by simp
  also have "\<dots> = pow2 (e - 52) * 2 ^ 52" unfolding pow2_add by (simp add: pow2_def)
  finally have lo: "pow2 e = pow2 (e - 52) * 2 ^ 52" .
  have "e + 1 = e - 52 + 53" by simp
  then have "pow2 (e + 1) = pow2 (e - 52 + 53)" by (simp only:)
  also have "\<dots> = pow2 (e - 52) * 2 ^ 53" unfolding pow2_add by (simp add: pow2_def)
  finally have hi: "pow2 (e + 1) = pow2 (e - 52) * 2 ^ 53" .
  have u: "0 < pow2 (e - 52)" by simp
  from assms(1) u have "2 ^ 52 \<le> x / pow2 (e - 52)"
    unfolding lo by (simp add: pos_le_divide_eq mult.commute)
  moreover from assms(2) u have "x / pow2 (e - 52) \<le> 2 ^ 53"
    unfolding hi by (simp add: pos_divide_le_eq mult.commute)
  ultimately show ?thesis by simp
qed

lemma float_round_pos:
  assumes "0 < x"
  shows "0 < float_round x \<and> float_round x \<le> 2 * x"
proof -
  define e where "e = \<lfloor>log 2 \<bar>x\<bar>\<rfloor>"
  define u where "u = pow2 (e - 52)"
  have x0: "x \<noteq> 0" using assms by simp
  from binade_exists [OF x0] assms have b: "pow2 e \<le> x" "x < pow2 (e + 1)"
    by (simp_all add: e_def)
  have u0: "0 < u" by (simp add: u_def)
  from binade_scaled [OF b] have
    lo: "of_int (2 ^ 52) \<le> x / u" and hi: "x / u \<le> of_int (2 ^ 53)" by (simp_all add: u_def)
  from py_round_ge [OF lo] have r1: "2 ^ 52 \<le> py_round (x / u)" .
  from py_round_le [OF hi] have r2: "py_round (x / u) \<le> 2 ^ 53" .
  have fr: "float_round x = u * of_int (py_round (x / u))"
    using float_round_binade [of e x] b assms by (simp add: u_def)
  have "real_of_int (2 ^ 52) \<le> real_of_int (py_round (x / u))" using r1 by (simp only: of_int_le_iff)
  then have r1': "2 ^ 52 \<le> real_of_int (py_round (x / u))" by simp
  have "real_of_int (py_round (x / u)) \<le> real_of_int (2 ^ 53)" using r2 by (simp only: of_int_le_iff)
  then have r2': "real_of_int (py_round (x / u)) \<le> 2 ^ 53" by simp
  have p: "0 < float_round x" unfolding fr using u0 r1' by (intro mult_pos_pos) simp_all
  have "float_round x \<le> u * 2 ^ 53" unfolding fr using u0 r2' by (intro mult_left_mono) simp_all
  also have "\<dots> = 2 * (u * 2 ^ 52)" by simp
  also have "u * 2 ^ 52 \<le> x" using lo u0 by (simp add: pos_le_divide_eq mult.commute)
  finally show ?thesis using p by simp
qed

lemma py_round_minus: "py_round (- r) = - py_round r"
proof (cases "of_int \<lfloor>r\<rfloor> = r")
  case True
  have "py_round (- of_int \<lfloor>r\<rfloor>) = - \<lfloor>r\<rfloor>"
    using py_round_of_int [of "- \<lfloor>r\<rfloor>"] by simp
  moreover have "py_round (of_int \<lfloor>r\<rfloor>) = \<lfloor>r\<rfloor>" by (rule py_round_of_int)
  ultimately show ?thesis unfolding True by simp
next
  case False
  then have lt: "of_int \<lfloor>r\<rfloor> < r" by linarith
  have ub: "r < of_int \<lfloor>r\<rfloor> + 1" by linarith
  have fl: "\<lfloor>- r\<rfloor> = - \<lfloor>r\<rfloor> - 1"
  proof (rule floor_unique)
    show "of_int (- \<lfloor>r\<rfloor> - 1) \<le> - r" by simp (insert ub, linarith)
    show "- r < of_int (- \<lfloor>r\<rfloor> - 1) + 1" by simp (insert lt, linarith)
  qed
  have par: "even (- \<lfloor>r\<rfloor> - 1) \<longleftrightarrow> odd \<lfloor>r\<rfloor>" by simp
  consider "r - of_int \<lfloor>r\<rfloor> < 1 / 2" | "1 / 2 < r - of_int \<lfloor>r\<rfloor>" | "r - of_int \<lfloor>r\<rfloor> = 1 / 2"
    by linarith
  then show ?thesis
  proof cases
    case 1
    then have "py_round r = \<lfloor>r\<rfloor>" by (simp add: py_round_def Let_def)
    moreover from 1 have "1 / 2 < - r - of_int (- \<lfloor>r\<rfloor> - 1)" by simp
    then have "py_round (- r) = - \<lfloor>r\<rfloor> - 1 + 1"
      unfolding py_round_def Let_def fl by simp
    ultimately show ?thesis by simp
  next
    case 2
    then have "py_round r = \<lfloor>r\<rfloor> + 1" by (simp add: py_round_def Let_def)
    moreover from 2 have "- r - of_int (- \<lfloor>r\<rfloor> - 1) < 1 / 2" by simp
    then have "py_round (- r) = - \<lfloor>r\<rfloor> - 1"
      unfolding py_round_def Let_def fl by simp
    ultimately show ?thesis by simp
  next
    case 3
    then have a: "py_round r = (if even \<lfloor>r\<rfloor> then \<lfloor>r\<rfloor> else \<lfloor>r\<rfloor> + 1)"
      by (simp add: py_round_def Let_def)
    from 3 have "- r - of_int (- \<lfloor>r\<rfloor> - 1) = 1 / 2" by simp
    then have "py_round (- r) = (if even (- \<lfloor>r\<rfloor> - 1) then - \<lfloor>r\<rfloor> - 1 else - \<lfloor>r\<rfloor> - 1 + 1)"
      unfolding py_round_def Let_def fl by simp
    with a show ?thesis unfolding par by simp
  qed
qed

lemma float_round_minus: "float_round (- x) = - float_round x"
  by (simp add: float_round_def Let_def py_round_minus)

lemma float_round_neg:
  assumes "x < 0"
  shows "float_round x < 0 \<and> 2 * x \<le> float_round x"
  using float_round_pos [of "- x"] assms by (simp add: float_round_minus)

lemma float_round_le_int:
  assumes "0 < y" "y \<le> of_int B" "B < 2 ^ 53"
  shows "float_round y \<le> of_int B"
proof -
  define e where "e = \<lfloor>log 2 \<bar>y\<bar>\<rfloor>"
  define u where "u = pow2 (e - 52)"
  have y0: "y \<noteq> 0" using assms by simp
  from binade_exists [OF y0] assms(1) have b: "pow2 e \<le> y" "y < pow2 (e + 1)"
    by (simp_all add: e_def)
  have "real_of_int B < real_of_int (2 ^ 53)" using assms(3) by (simp only: of_int_less_iff)
  also have "\<dots> = pow2 53" by (simp add: pow2_def)
  finally have "pow2 e < pow2 53" using b(1) assms(2) by linarith
  then have e53: "e < 53" by (simp only: pow2_less_iff)
  define k where "k = 52 - e"
  have k0: "0 \<le> k" using e53 by (simp add: k_def)
  have "pow2 (e - 52) * pow2 k = pow2 0" unfolding pow2_add [symmetric] by (simp add: k_def)
  then have u1: "u * 2 ^ nat k = 1" using k0 by (simp add: pow2_nat u_def)
  have u0: "0 < u" by (simp add: u_def)
  have "y / u = y * (u * 2 ^ nat k) / u" unfolding u1 by simp
  also have "\<dots> = y * 2 ^ nat k" using u0 by simp
  also have "\<dots> \<le> of_int B * 2 ^ nat k" using assms(2) by (intro mult_right_mono) simp_all
  also have "\<dots> = of_int (B * 2 ^ nat k)" by simp
  finally have "py_round (y / u) \<le> B * 2 ^ nat k" by (rule py_round_le)
  then have "real_of_int (py_round (y / u)) \<le> real_of_int (B * 2 ^ nat k)"
    by (simp only: of_int_le_iff)
  then have "u * real_of_int (py_round (y / u)) \<le> u * real_of_int (B * 2 ^ nat k)"
    using u0 by (intro mult_left_mono) simp_all
  also have "\<dots> = of_int B * (u * 2 ^ nat k)" by simp
  also have "\<dots> = of_int B" unfolding u1 by simp
  finally show ?thesis
    using float_round_binade [of e y] b assms(1) by (simp add: u_def)
qed

lemma float_round_within_360:
  assumes "0 \<le> y" "y \<le> 360"
  shows "0 \<le> float_round y \<and> float_round y \<le> 360"
proof (cases "y = 0")
  case True
  then show ?thesis by simp
next
  case False
  with assms have pos: "0 < y" by simp
  from float_round_pos [OF pos] have "0 \<le> float_round y" by simp
  moreover have "float_round y \<le> of_int 360"
    using pos assms(2) by (intro float_round_le_int) simp_all
  ultimately show ?thesis by simp
qed

lemma float_round_near_360:
  assumes "\<bar>y - 360\<bar> \<le> 1 / 2 ^ 46"
  shows "float_round y = 360"
proof -
  have close: "\<bar>y - 360\<bar> \<le> 1" using assms by (rule order_trans) simp
  have b: "pow2 8 \<le> \<bar>y\<bar>" "\<bar>y\<bar> < pow2 (8 + 1)"
    using close by (simp_all add: pow2_def)
  have u: "pow2 (8 - 52) = 1 / 2 ^ 44" by (simp add: pow2_def)
  have "y / pow2 (8 - 52) - of_int (360 * 2 ^ 44) = (y - 360) * 2 ^ 44"
    unfolding u by (simp add: algebra_simps)
  then have "\<bar>y / pow2 (8 - 52) - of_int (360 * 2 ^ 44)\<bar> = \<bar>y - 360\<bar> * 2 ^ 44"
    by (simp only: abs_mult) simp
  also have "\<dots> \<le> 1 / 2 ^ 46 * 2 ^ 44" using assms by (intro mult_right_mono) simp_all
  also have "\<dots> < 1 / 2" by simp
  finally have "py_round (y / pow2 (8 - 52)) = 360 * 2 ^ 44" by (rule py_round_near)
  then have "float_round y = pow2 (8 - 52) * of_int (360 * 2 ^ 44)"
    using float_round_binade [OF b] by (simp only:)
  then show ?thesis unfolding u by simp
qed

lemma math_fmod_range:
  assumes "0 < b"
  shows "(0 \<le> a \<longrightarrow> 0 \<le> math_fmod a b \<and> math_fmod a b < b) \<and>
         (a < 0 \<longrightarrow> - b < math_fmod a b \<and> math_fmod a b \<le> 0)"
proof (cases "0 \<le> a")
  case True
  then have q: "0 \<le> a / b" using assms by simp
  have "of_int \<lfloor>a / b\<rfloor> * b \<le> a" using assms by (rule floor_divide_lower)
  moreover have "a < (of_int \<lfloor>a / b\<rfloor> + 1) * b" using assms by (rule floor_divide_upper)
  ultimately show ?thesis using True q by (simp add: math_fmod_def algebra_simps)
next
  case False
  then have q: "\<not> 0 \<le> a / b" using assms by (simp add: zero_le_divide_iff)
  have "a \<le> of_int \<lceil>a / b\<rceil> * b" using assms by (rule ceiling_divide_upper)
  moreover have "(of_int \<lceil>a / b\<rceil> - 1) * b < a" using assms by (rule ceiling_divide_lower)
  ultimately show ?thesis using False q by (simp add: math_fmod_def algebra_simps)
qed

lemma float_mod_360: "0 \<le> float_mod a 360 \<and> float_mod a 360 \<le> 360"
proof (cases "math_fmod a 360 < 0")
  case True
  with math_fmod_range [of 360 a] have m: "- 360 < math_fmod a 360" by (cases "0 \<le> a") simp_all
  have "0 \<le> math_fmod a 360 + 360" "math_fmod a 360 + 360 \<le> 360" using m True by simp_all
  from float_round_within_360 [OF this] True show ?thesis by (simp add: float_mod_def Let_def)
next
  case False
  with math_fmod_range [of 360 a] have "0 \<le> math_fmod a 360" "math_fmod a 360 < 360"
    by (cases "0 \<le> a"; simp)+
  with False show ?thesis by (simp add: float_mod_def Let_def)
qed

lemma direction_angle_range: "0 \<le> direction_angle p q \<and> direction_angle p q \<le> 360"
proof -
  let ?r = "float_mod (float_round (math_atan2 (float_round (snd q - snd p))
      (float_round (fst q - fst p)) * float_round (180 / float_round pi))) 360"
  have "0 \<le> 360 - ?r" "360 - ?r \<le> 360" using float_mod_360 [of "float_round (math_atan2 (float_round (snd q - snd p))
      (float_round (fst q - fst p)) * float_round (180 / float_round pi))"] by simp_all
  from float_round_within_360 [OF this] show ?thesis by (simp add: direction_angle_def)
qed

lemma math_fmod_0 [simp]: "math_fmod 0 b = 0"
  by (simp add: math_fmod_def)

lemma float_mod_0 [simp]: "float_mod 0 b = 0"
  by (simp add: float_mod_def)

lemma direction_angle_east: "direction_angle (0, 0) (1, 0) = 360"
  by (simp add: direction_angle_def math_atan2_def)

lemma float_mod_tiny_negative:
  assumes "a < 0" "- (1 / 2 ^ 46) \<le> a"
  shows "float_mod a 360 = 360"
proof -
  have "- 1 < a / 360" using assms by simp
  moreover have "a / 360 < 0" using assms by simp
  ultimately have c: "\<lceil>a / 360\<rceil> = 0" by (simp add: ceiling_eq_iff)
  have m: "math_fmod a 360 = a" using \<open>a / 360 < 0\<close> c by (simp add: math_fmod_def)
  have "\<bar>a + 360 - 360\<bar> \<le> 1 / 2 ^ 46" using assms by simp
  from float_round_near_360 [OF this] show ?thesis
    using assms(1) by (simp add: float_mod_def m)
qed

lemma arctan_at_most_self: "0 \<le> x \<Longrightarrow> arctan x \<le> x"
proof -
  assume x: "0 \<le> x"
  have "(\<lambda>y. y - arctan y) 0 \<le> (\<lambda>y. y - arctan y) x"
  proof (rule DERIV_nonneg_imp_nondecreasing [OF x])
    fix y :: real
    have d: "DERIV (\<lambda>y. y - arctan y) y :> 1 - inverse (1 + y\<^sup>2)"
      by (auto intro!: derivative_eq_intros)
    have "inverse (1 + y\<^sup>2) \<le> 1" by (simp add: inverse_le_1_iff)
    then have "0 \<le> 1 - inverse (1 + y\<^sup>2)" by simp
    with d show "\<exists>z. DERIV (\<lambda>y. y - arctan y) y :> z \<and> 0 \<le> z" by blast
  qed
  then show ?thesis by simp
qed

lemma arctan_at_least_self: "x \<le> 0 \<Longrightarrow> x \<le> arctan x"
  using arctan_at_most_self [of "- x"] by (simp add: arctan_minus)

lemma float_round_pos_lower:
  assumes "0 < x"
  shows "x \<le> 2 * float_round x"
proof -
  define e where "e = \<lfloor>log 2 \<bar>x\<bar>\<rfloor>"
  define u where "u = pow2 (e - 52)"
  have x0: "x \<noteq> 0" using assms by simp
  from binade_exists [OF x0] assms have b: "pow2 e \<le> x" "x < pow2 (e + 1)"
    by (simp_all add: e_def)
  have u0: "0 < u" by (simp add: u_def)
  from binade_scaled [OF b] have
    lo: "of_int (2 ^ 52) \<le> x / u" and hi: "x / u \<le> of_int (2 ^ 53)" by (simp_all add: u_def)
  from py_round_ge [OF lo] have "2 ^ 52 \<le> py_round (x / u)" .
  then have "real_of_int (2 ^ 52) \<le> real_of_int (py_round (x / u))" by (simp only: of_int_le_iff)
  then have r1: "2 ^ 52 \<le> real_of_int (py_round (x / u))" by simp
  have fr: "float_round x = u * of_int (py_round (x / u))"
    using float_round_binade [of e x] b assms by (simp add: u_def)
  have "x \<le> u * 2 ^ 53" using hi u0 by (simp add: pos_divide_le_eq mult.commute)
  also have "\<dots> = 2 * (u * 2 ^ 52)" by simp
  also have "u * 2 ^ 52 \<le> float_round x" unfolding fr using u0 r1 by (intro mult_left_mono) simp_all
  finally show ?thesis by simp
qed

text \<open>
  The angle \<open>0\<close> is produced as well: for a step that sinks by \<open>2^-70\<close> while moving one
  unit to the right, \<^verbatim>\<open>%\<close> rounds up to \<open>360\<close>.
\<close>

lemma direction_angle_zero: "direction_angle (0, 1 / 2 ^ 70) (1, 0) = 0"
proof -
  define dy where "dy = float_round (0 - 1 / 2 ^ 70)"
  define c where "c = float_round (180 / float_round pi)"
  define t where "t = float_round (arctan dy * c)"
  have dy: "dy < 0" "- (2 / 2 ^ 70) \<le> dy"
    using float_round_neg [of "0 - 1 / 2 ^ 70"] by (simp_all add: dy_def)
  have fp: "0 < float_round pi" "pi \<le> 2 * float_round pi"
    using float_round_pos [of pi] float_round_pos_lower [of pi] by simp_all
  then have "1 \<le> float_round pi" using pi_ge_two by linarith
  then have q: "0 < 180 / float_round pi" "180 / float_round pi \<le> 180"
    by (simp_all add: divide_le_eq)
  have c: "0 < c" "c \<le> 360"
    using float_round_pos [OF q(1)] q(2) by (simp_all add: c_def)
  have a: "arctan dy < 0" "dy \<le> arctan dy" using dy(1) arctan_at_least_self [of dy] by simp_all
  have p: "arctan dy * c < 0" using a(1) c(1) by (simp add: mult_neg_pos)
  have "- (2 / 2 ^ 70) * 360 \<le> arctan dy * 360" using a(2) dy(2) by simp
  also have "arctan dy * 360 \<le> arctan dy * c" using a(1) c(2) by (intro mult_left_mono_neg) simp_all
  finally have p': "- (720 / 2 ^ 70) \<le> arctan dy * c" by simp
  have t: "t < 0" "- (1 / 2 ^ 46) \<le> t"
    using float_round_neg [OF p] p' by (simp_all add: t_def)
  have dx: "float_round (1 - 0) = 1" by simp
  have at: "math_atan2 dy 1 = arctan dy" by (simp add: math_atan2_def)
  have "direction_angle (0, 1 / 2 ^ 70) (1, 0) =
      float_round (360 - float_mod (float_round (math_atan2 dy (float_round (1 - 0)) * c)) 360)"
    by (simp only: direction_angle_def fst_conv snd_conv dy_def c_def)
  also have "\<dots> = float_round (360 - float_mod t 360)"
    by (simp only: dx at t_def)
  also have "\<dots> = 0" unfolding float_mod_tiny_negative [OF t] by simp
  finally show ?thesis .
qed


lemma py_round_bounds: "0 \<le> r \<Longrightarrow> r \<le> 8 \<Longrightarrow> 0 \<le> py_round r \<and> py_round r \<le> 8"
proof -
  assume r: "0 \<le> r" "r \<le> 8"
  have f0: "0 \<le> \<lfloor>r\<rfloor>" using r by simp
  have f8: "\<lfloor>r\<rfloor> \<le> 8" using r by (simp add: floor_le_iff)
  show ?thesis
  proof (cases "\<lfloor>r\<rfloor> = 8")
    case True
    then have "r = 8" using r by linarith
    then show ?thesis by (simp add: py_round_def)
  next
    case False
    then have "\<lfloor>r\<rfloor> \<le> 7" using f8 by linarith
    then show ?thesis using f0 by (simp add: py_round_def Let_def)
  qed
qed

lemma compass_lookup_bounds:
  "0 \<le> a \<Longrightarrow> a \<le> 360 \<Longrightarrow> 0 \<le> compass_lookup a \<and> compass_lookup a \<le> 8"
  using py_round_bounds [of "a / 45"] by (simp add: compass_lookup_def)

lemma compass_values: "compass_lookup 360 = 8" "compass_lookup 0 = 0" "compass_lookup 45 = 1"
  by (simp_all add: compass_lookup_def py_round_def)

lemma compass_in_range:
  "0 \<le> a \<Longrightarrow> a \<le> 360 \<Longrightarrow>
   py_index compass_brackets (compass_lookup a) = Inr (compass_brackets ! nat (compass_lookup a))"
  using compass_lookup_bounds [of a]
  by (simp add: py_index_def compass_brackets_def)

lemma direction_angle_compass:
  "py_index compass_brackets (compass_lookup (direction_angle p q)) =
   Inr (compass_brackets ! nat (compass_lookup (direction_angle p q)))"
  using direction_angle_range [of p q] by (intro compass_in_range) simp_all

lemma py_max_Max: "xs \<noteq> [] \<Longrightarrow> py_max xs = Inr (Max (set xs))"
  by (cases xs) (simp_all add: py_max_def Max.set_eq_fold [symmetric])

lemma py_min_Min: "xs \<noteq> [] \<Longrightarrow> py_min xs = Inr (Min (set xs))"
  by (cases xs) (simp_all add: py_min_def Min.set_eq_fold [symmetric])

lemma py_index_last: "xs \<noteq> [] \<Longrightarrow> py_index xs (int (length xs) - 1) = Inr (last xs)"
  by (simp add: py_index_def Let_def last_conv_nth nat_diff_distrib')

lemma py_index_first: "xs \<noteq> [] \<Longrightarrow> py_index xs 0 = Inr (hd xs)"
  by (simp add: py_index_def Let_def hd_conv_nth)

lemma sqrt_25: "sqrt 25 = 5"
  using real_sqrt_abs [of 5] by simp

section \<open>The single-cell computation\<close>

lemma step_pairs_simps [simp]:
  "step_pairs prev [] = []"
  "step_pairs prev (p # ps) = (prev, p) # step_pairs p ps"
  by (simp_all add: step_pairs_def)

lemma length_step_pairs [simp]: "length (step_pairs prev ps) = length ps"
  by (simp add: step_pairs_def)

lemma step_pairs_Nil [simp]: "step_pairs prev ps = [] \<longleftrightarrow> ps = []"
  by (cases ps) simp_all

lemma step_pairs_nth:
  "i < length ps \<Longrightarrow> step_pairs prev ps ! i = ((prev # ps) ! i, ps ! i)"
  by (simp add: step_pairs_def)

lemma individual_loop_ok:
  "t \<noteq> 0 \<Longrightarrow> individual_loop origin t prev ps acc = Inr
     (acc\<lparr>distances := distances acc @ map (\<lambda>(a, b). math_dist a b) (step_pairs prev ps),
          origin_distances := origin_distances acc @ map (math_dist origin) ps,
          speeds := speeds acc @ map (\<lambda>(a, b). math_dist a b / t) (step_pairs prev ps),
          angle_of_direction :=
            angle_of_direction acc @ map (\<lambda>(a, b). direction_angle a b) (step_pairs prev ps),
          final_angle := (if ps = [] then final_angle acc else direction_angle origin (last ps)),
          xy := (if ps = [] then xy acc else last ps)\<rparr>)"
proof (induction ps arbitrary: prev acc)
  case Nil
  then show ?case by simp
next
  case (Cons p ps)
  then show ?case by (simp add: py_div_def)
qed




lemma calc_individual_ok:
  assumes "t \<noteq> 0" "rest \<noteq> []" "areas \<noteq> []"
  shows "calc_individual_cell_statistics (Some (origin # rest)) areas t units =
         Inr (individual_report origin rest areas t units)"
  using assms
  by (simp add: calc_individual_cell_statistics_def individual_loop_ok cell_acc_init_def
      py_max_Max py_min_Min py_div_def float_div_def direction_angle_compass py_index_last
      py_index_first individual_report_def dict_of_def dict_set_def)

text \<open>
  C3. An absent trajectory (\<open>None\<close>) makes the single-cell computation raise its
  "Empy Data Set Given" exception; an empty trajectory does not reach that \<^verbatim>\<open>raise\<close>:
  the guard only tests \<^verbatim>\<open>data is not None\<close>, and \<^verbatim>\<open>data[0][0]\<close> raises IndexError.
\<close>

theorem individual_empty_or_absent_trajectory:
  "calc_individual_cell_statistics None areas t units = Inl (Exception ''Empy Data Set Given'') \<and>
   calc_individual_cell_statistics (Some []) areas t units = Inl IndexError"
  by (simp add: calc_individual_cell_statistics_def)

text \<open>
  C4, as stated, fails: for a step along the positive x axis \<open>atan2\<close> is \<open>0\<close>, so the
  reflected angle is \<open>360 - 0 = 360\<close>, outside \<open>[0, 360)\<close>. The trajectory
  \<open>[(0,0), (1,0)]\<close> with one minute between frames records the step angle \<open>360\<close>.
\<close>

theorem step_angle_reaches_360:
  "\<not> direction_angle (0, 0) (1, 0) < 360 \<and>
   individual_loop (0, 0) 1 (0, 0) [(1, 0)] cell_acc_init =
     Inr \<lparr>speeds = [1], angle_of_direction = [360], distances = [1], origin_distances = [1],
          final_angle = 360, xy = (1, 0)\<rparr>"
  by (simp add: direction_angle_east cell_acc_init_def math_dist_def py_div_def)

text \<open>
  C4, amended: every step direction angle the single-cell loop records lies in the closed
  interval \<open>[0, 360]\<close>: never negative and never more than \<open>360\<close>, with \<open>360\<close> itself
  produced whenever \<open>atan2\<close> is \<open>0\<close>.
\<close>

theorem step_angle_range:
  assumes "individual_loop origin t origin rest cell_acc_init = Inr acc"
  shows "\<forall>a \<in> set (angle_of_direction acc). 0 \<le> a \<and> a \<le> 360"
proof (cases "t = 0")
  case True
  with assms have "rest = []" by (cases rest) (simp_all add: py_div_def)
  with assms show ?thesis by (auto simp add: cell_acc_init_def)
next
  case False
  with assms have
    "angle_of_direction acc = map (\<lambda>(a, b). direction_angle a b) (step_pairs origin rest)"
    by (auto simp add: individual_loop_ok cell_acc_init_def)
  then show ?thesis using direction_angle_range by auto
qed

theorem step_angle_range_witness:
  "individual_loop (0, 0) 1 (0, 0) [(1, 0)] cell_acc_init =
     Inr \<lparr>speeds = [1], angle_of_direction = [360], distances = [1], origin_distances = [1],
          final_angle = 360, xy = (1, 0)\<rparr> \<and>
   0 \<le> hd (angle_of_direction
     \<lparr>speeds = [1], angle_of_direction = [360 :: real], distances = [1], origin_distances = [1],
      final_angle = 360, xy = (1, 0)\<rparr>) \<and>
   hd (angle_of_direction
     \<lparr>speeds = [1], angle_of_direction = [360 :: real], distances = [1], origin_distances = [1],
      final_angle = 360, xy = (1, 0)\<rparr>) \<le> 360"
proof -
  have run: "individual_loop (0, 0) 1 (0, 0) [(1, 0)] cell_acc_init =
     Inr \<lparr>speeds = [1], angle_of_direction = [360], distances = [1], origin_distances = [1],
          final_angle = 360, xy = (1, 0)\<rparr>"
    by (simp add: direction_angle_east cell_acc_init_def math_dist_def py_div_def)
  from step_angle_range [OF run] run show ?thesis by simp
qed











text \<open>
  C7. For a trajectory of at least two frames the final angle \<open>a\<close> gives a table index
  \<open>round(a / 45)\<close> between \<open>0\<close> and \<open>8\<close>, so the lookup in the nine-entry table succeeds;
  the table starts and ends with "E"; \<open>360\<close> and \<open>0\<close> classify as "E" and \<open>45\<close> as "NE".
\<close>

theorem compass_lookup_in_table:
  assumes "t \<noteq> 0" "rest \<noteq> []" "areas \<noteq> []"
  shows "(\<exists>stats a. calc_individual_cell_statistics (Some (origin # rest)) areas t units = Inr stats \<and>
            map_of stats ''Angle of Direction between Origin and Final Point (degrees)'' = Some (Num a) \<and>
            0 \<le> compass_lookup a \<and> compass_lookup a \<le> 8 \<and>
            py_index compass_brackets (compass_lookup a) = Inr (compass_brackets ! nat (compass_lookup a)) \<and>
            map_of stats ''Compass Direction Moved'' =
              Some (Text (compass_brackets ! nat (compass_lookup a)))) \<and>
         length compass_brackets = 9 \<and> hd compass_brackets = ''E'' \<and> last compass_brackets = ''E'' \<and>
         py_index compass_brackets (compass_lookup 360) = Inr ''E'' \<and>
         py_index compass_brackets (compass_lookup 0) = Inr ''E'' \<and>
         py_index compass_brackets (compass_lookup 45) = Inr ''NE''"
proof -
  let ?a = "direction_angle origin (last rest)"
  have range: "0 \<le> compass_lookup ?a \<and> compass_lookup ?a \<le> 8"
    using direction_angle_range [of origin "last rest"] by (intro compass_lookup_bounds) simp_all
  have report: "calc_individual_cell_statistics (Some (origin # rest)) areas t units =
      Inr (individual_report origin rest areas t units)"
    using assms by (rule calc_individual_ok)
  have angle: "map_of (individual_report origin rest areas t units)
      ''Angle of Direction between Origin and Final Point (degrees)'' = Some (Num ?a)"
    by (simp add: individual_report_def)
  have compass: "map_of (individual_report origin rest areas t units) ''Compass Direction Moved'' =
      Some (Text (compass_brackets ! nat (compass_lookup ?a)))"
    by (simp add: individual_report_def)
  have table: "length compass_brackets = 9 \<and> hd compass_brackets = ''E'' \<and>
      last compass_brackets = ''E'' \<and>
      py_index compass_brackets (compass_lookup 360) = Inr ''E'' \<and>
      py_index compass_brackets (compass_lookup 0) = Inr ''E'' \<and>
      py_index compass_brackets (compass_lookup 45) = Inr ''NE''"
    by (simp add: compass_values py_index_def compass_brackets_def)
  show ?thesis
    using range report angle compass table direction_angle_compass [of origin "last rest"]
    by blast
qed

theorem compass_lookup_in_table_witness:
  "(\<exists>stats a. calc_individual_cell_statistics (Some ((0, 0) # [(1, 0)])) [1] 1 ''mm'' = Inr stats \<and>
      map_of stats ''Angle of Direction between Origin and Final Point (degrees)'' = Some (Num a) \<and>
      0 \<le> compass_lookup a \<and> compass_lookup a \<le> 8 \<and>
      py_index compass_brackets (compass_lookup a) = Inr (compass_brackets ! nat (compass_lookup a)) \<and>
      map_of stats ''Compass Direction Moved'' =
        Some (Text (compass_brackets ! nat (compass_lookup a)))) \<and>
   length compass_brackets = 9 \<and> hd compass_brackets = ''E'' \<and> last compass_brackets = ''E'' \<and>
   py_index compass_brackets (compass_lookup 360) = Inr ''E'' \<and>
   py_index compass_brackets (compass_lookup 0) = Inr ''E'' \<and>
   py_index compass_brackets (compass_lookup 45) = Inr ''NE''"
  by (rule compass_lookup_in_table) simp_all

text \<open>
  C9. For a trajectory of at least two frames, "Final Distance from Origin" is at most
  "Maximum Distance from Origin": the final point's distance is the last entry of
  \<open>origin_distances\<close>.
\<close>

theorem final_le_max_origin_distance:
  assumes "t \<noteq> 0" "rest \<noteq> []" "areas \<noteq> []"
  shows "\<exists>stats f m. calc_individual_cell_statistics (Some (origin # rest)) areas t units = Inr stats \<and>
           map_of stats (''Final Distance from Origin ('' @ units @ '')'') = Some (Num f) \<and>
           map_of stats (''Maximum Distance from Origin ('' @ units @ '')'') = Some (Num m) \<and>
           f \<le> m"
  using assms by (simp add: calc_individual_ok individual_report_def)

theorem final_le_max_origin_distance_witness:
  "\<exists>stats f m. calc_individual_cell_statistics (Some ((0, 0) # [(3, 4), (1, 0)])) [1] 1 ''mm'' = Inr stats \<and>
     map_of stats (''Final Distance from Origin ('' @ ''mm'' @ '')'') = Some (Num f) \<and>
     map_of stats (''Maximum Distance from Origin ('' @ ''mm'' @ '')'') = Some (Num m) \<and>
     f \<le> m"
  by (rule final_le_max_origin_distance) simp_all

text \<open>
  C10. The single-cell computation filters nothing: a trajectory of \<open>N \<ge> 2\<close> points
  yields exactly \<open>N - 1\<close> step distances, speeds and angles, the \<open>i\<close>-th computed from
  points \<open>i\<close> and \<open>i + 1\<close> whatever their values (a \<open>(0,0)\<close> placeholder included), and
  these lists are what the displacement, maximum-step and speed statistics are taken from.
\<close>

theorem individual_no_placeholder_filtering:
  assumes "t \<noteq> 0" "rest \<noteq> []" "areas \<noteq> []"
  shows "\<exists>acc stats.
           individual_loop origin t origin rest cell_acc_init = Inr acc \<and>
           length (distances acc) = length (origin # rest) - 1 \<and>
           length (speeds acc) = length (origin # rest) - 1 \<and>
           length (angle_of_direction acc) = length (origin # rest) - 1 \<and>
           (\<forall>i < length rest.
              distances acc ! i = math_dist ((origin # rest) ! i) ((origin # rest) ! Suc i) \<and>
              speeds acc ! i = math_dist ((origin # rest) ! i) ((origin # rest) ! Suc i) / t \<and>
              angle_of_direction acc ! i =
                direction_angle ((origin # rest) ! i) ((origin # rest) ! Suc i)) \<and>
           calc_individual_cell_statistics (Some (origin # rest)) areas t units = Inr stats \<and>
           map_of stats (''Total Displacement ('' @ units @ '')'') =
             Some (Num (sum_list (distances acc))) \<and>
           map_of stats (''Maximum Distance Traveled in one Interval ('' @ units @ '')'') =
             Some (Num (Max (set (distances acc)))) \<and>
           map_of stats (''Maximum Speed ('' @ units @ ''/min)'') =
             Some (Num (Max (set (speeds acc)))) \<and>
           map_of stats (''Average Speed ('' @ units @ ''/min)'') =
             Some (Num (sum_list (speeds acc) / real (length (speeds acc))))"
  using assms
  by (simp add: calc_individual_ok individual_report_def individual_loop_ok cell_acc_init_def
      step_pairs_nth)

theorem individual_no_placeholder_filtering_witness:
  "\<exists>acc stats.
     individual_loop (3, 4) 1 (3, 4) [(0, 0), (3, 4)] cell_acc_init = Inr acc \<and>
     length (distances acc) = length ((3, 4) # [(0, 0), (3, 4 :: real)] :: point list) - 1 \<and>
     length (speeds acc) = length ((3, 4) # [(0, 0), (3, 4)] :: point list) - 1 \<and>
     length (angle_of_direction acc) = length ((3, 4) # [(0, 0), (3, 4)] :: point list) - 1 \<and>
     (\<forall>i < length [(0, 0), (3, 4) :: point].
        distances acc ! i =
          math_dist (((3, 4) # [(0, 0), (3, 4)]) ! i) (((3, 4) # [(0, 0), (3, 4)]) ! Suc i) \<and>
        speeds acc ! i =
          math_dist (((3, 4) # [(0, 0), (3, 4)]) ! i) (((3, 4) # [(0, 0), (3, 4)]) ! Suc i) / 1 \<and>
        angle_of_direction acc ! i =
          direction_angle (((3, 4) # [(0, 0), (3, 4)]) ! i) (((3, 4) # [(0, 0), (3, 4)]) ! Suc i)) \<and>
     calc_individual_cell_statistics (Some ((3, 4) # [(0, 0), (3, 4)])) [1] 1 ''mm'' = Inr stats \<and>
     map_of stats (''Total Displacement ('' @ ''mm'' @ '')'') =
       Some (Num (sum_list (distances acc))) \<and>
     map_of stats (''Maximum Distance Traveled in one Interval ('' @ ''mm'' @ '')'') =
       Some (Num (Max (set (distances acc)))) \<and>
     map_of stats (''Maximum Speed ('' @ ''mm'' @ ''/min)'') =
       Some (Num (Max (set (speeds acc)))) \<and>
     map_of stats (''Average Speed ('' @ ''mm'' @ ''/min)'') =
       Some (Num (sum_list (speeds acc) / real (length (speeds acc))))"
  by (rule individual_no_placeholder_filtering) simp_all

section \<open>The culture computation\<close>

text \<open>
  C1. The culture loop tests only the current point \<open>data[i]\<close> for the placeholder; the
  previous point \<open>data[i-1]\<close> is used as it is. For the trajectory
  \<open>[(1,4), (0,0), (3,4)]\<close> the frame \<open>(0,0)\<close> is skipped as a current point, but the next
  step is measured from \<open>(0,0)\<close> to \<open>(3,4)\<close>: distance and speed \<open>5\<close> are recorded and the
  cell's total displacement is \<open>5\<close>.
\<close>

theorem culture_uses_placeholder_as_previous_point:
  "culture_positions [(1, Some [(1, 4), (0, 0), (3, 4)])] 1 culture_acc_init =
     Inr \<lparr>speeds = [5], angle_of_direction = [360], displacements = [5], final_distances = [2]\<rparr>"
  by (simp add: culture_acc_init_def py_div_def math_dist_def sqrt_25 direction_angle_def
      math_atan2_def)

lemma list_index_member:
  "a \<in> set vs \<Longrightarrow> \<exists>i. list_index vs a = Inr i \<and> i < length vs \<and> vs ! i = a"
  by (induction vs) auto

lemma py_index_nat: "i < length xs \<Longrightarrow> py_index xs (int i) = Inr (xs ! i)"
  by (simp add: py_index_def)

lemma next_nonzero_Some:
  "\<exists>a\<in>set v. a \<noteq> 0 \<Longrightarrow> next_nonzero v = Inr (hd (filter (\<lambda>x. x \<noteq> 0) v)) \<and>
     hd (filter (\<lambda>x. x \<noteq> 0) v) \<in> set v"
proof -
  assume "\<exists>a\<in>set v. a \<noteq> 0"
  then have ne: "filter (\<lambda>x. x \<noteq> 0) v \<noteq> []" by (simp add: filter_empty_conv)
  then have "hd (filter (\<lambda>x. x \<noteq> 0) v) \<in> set (filter (\<lambda>x. x \<noteq> 0) v)" by (rule hd_in_set)
  then have "hd (filter (\<lambda>x. x \<noteq> 0) v) \<in> set v" by simp
  moreover from ne have "next_nonzero v = Inr (hd (filter (\<lambda>x. x \<noteq> 0) v))"
    by (cases "filter (\<lambda>x. x \<noteq> 0) v") (simp_all add: next_nonzero_def)
  ultimately show ?thesis by simp
qed

lemma next_nonzero_None:
  "\<not> (\<exists>a\<in>set v. a \<noteq> 0) \<Longrightarrow> next_nonzero v = Inl StopIteration"
  by (simp add: next_nonzero_def filter_empty_conv[THEN iffD2])

lemma size_step_ok:
  assumes "\<exists>a\<in>set (snd kv). a \<noteq> 0"
  shows "size_step acc kv = Inr (size_update acc kv)"
proof -
  from assms have ne: "snd kv \<noteq> []" by auto
  from next_nonzero_Some [OF assms] have
    nz: "next_nonzero (snd kv) = Inr (hd (filter (\<lambda>x. x \<noteq> 0) (snd kv)))" and
    mem: "hd (filter (\<lambda>x. x \<noteq> 0) (snd kv)) \<in> set (snd kv)" by simp_all
  from list_index_member [OF mem] obtain i where
    i: "list_index (snd kv) (hd (filter (\<lambda>x. x \<noteq> 0) (snd kv))) = Inr i" "i < length (snd kv)"
       "snd kv ! i = hd (filter (\<lambda>x. x \<noteq> 0) (snd kv))" by blast
  show ?thesis
    using ne nz i
    by (cases acc; cases "min_cell_size acc")
       (simp_all add: size_step_def Let_def py_min_Min py_max_Max py_index_last py_index_nat
        size_update_def cell_max_def cell_min_def)
qed

lemma size_step_fail:
  assumes "\<not> (\<exists>a\<in>set (snd kv). a \<noteq> 0)"
  shows "size_step acc kv = Inl (if snd kv = [] then ValueError else StopIteration)"
proof (cases "snd kv = []")
  case True
  then show ?thesis by (simp add: size_step_def Let_def py_min_def)
next
  case False
  then show ?thesis
    using next_nonzero_None [OF assms]
    by (simp add: size_step_def Let_def py_min_Min py_max_Max py_index_last)
qed

lemma find_snoc:
  "find P (xs @ [x]) = (case find P xs of None \<Rightarrow> (if P x then Some x else None) | Some y \<Rightarrow> Some y)"
  by (induction xs) auto

lemma largest_size_ge: "kv \<in> set cells \<Longrightarrow> cell_max kv \<le> largest_size cells"
  by (simp add: largest_size_def)

lemma largest_size_nonneg: "0 \<le> largest_size cells"
  by (simp add: largest_size_def)

lemma largest_size_attained:
  "0 < largest_size cells \<Longrightarrow> \<exists>kv\<in>set cells. cell_max kv = largest_size cells"
proof -
  assume pos: "0 < largest_size cells"
  have "Max (insert 0 (cell_max ` set cells)) \<in> insert 0 (cell_max ` set cells)"
    by (rule Max_in) simp_all
  with pos show ?thesis by (auto simp add: largest_size_def)
qed

lemma largest_size_snoc:
  "largest_size (cells @ [kv]) = max (largest_size cells) (cell_max kv)"
proof -
  have "insert 0 (cell_max ` set (cells @ [kv])) = insert (cell_max kv) (insert 0 (cell_max ` set cells))"
    by auto
  then show ?thesis by (simp add: largest_size_def max.commute)
qed

lemma largest_id_snoc:
  "largest_id (cells @ [kv]) =
     (if largest_size cells < cell_max kv then fst kv else largest_id cells)"
proof (cases "largest_size cells < cell_max kv")
  case True
  then have M: "largest_size (cells @ [kv]) = cell_max kv"
    by (simp add: largest_size_snoc)
  have pos: "0 < cell_max kv" using True largest_size_nonneg [of cells] by linarith
  have "\<not> (\<exists>x\<in>set cells. cell_max x = cell_max kv)"
    using True largest_size_ge [of _ cells] by fastforce
  then have "find (\<lambda>x. 0 < cell_max kv \<and> cell_max x = cell_max kv) cells = None"
    by (simp add: find_None_iff)
  then show ?thesis using True pos by (simp add: largest_id_def M find_snoc)
next
  case False
  then have M: "largest_size (cells @ [kv]) = largest_size cells"
    by (simp add: largest_size_snoc)
  show ?thesis
  proof (cases "0 < largest_size cells")
    case True
    from largest_size_attained [OF this] obtain y where
      "y \<in> set cells" "cell_max y = largest_size cells" by blast
    then have "find (\<lambda>x. 0 < largest_size cells \<and> cell_max x = largest_size cells) cells \<noteq> None"
      using True unfolding find_None_iff by blast
    then show ?thesis using False by (auto simp add: largest_id_def M find_snoc)
  next
    case zero: False
    then have "find (\<lambda>x. 0 < largest_size cells \<and> cell_max x = largest_size cells) cells = None"
      by (simp add: find_None_iff)
    then show ?thesis using False zero by (simp add: largest_id_def M find_snoc)
  qed
qed

lemma measured_snoc:
  "measured (cells @ [kv]) = measured cells @ (if cell_min kv \<noteq> 0 then [kv] else [])"
  by (simp add: measured_def)

lemma smallest_size_snoc:
  "smallest_size (cells @ [kv]) =
     (if cell_min kv \<noteq> 0 \<and> (case smallest_size cells of None \<Rightarrow> True | Some m \<Rightarrow> cell_min kv < m)
      then Some (cell_min kv) else smallest_size cells)"
proof (cases "cell_min kv \<noteq> 0")
  case False
  then show ?thesis by (simp add: smallest_size_def measured_snoc)
next
  case True
  show ?thesis
  proof (cases "measured cells = []")
    case True
    with \<open>cell_min kv \<noteq> 0\<close> show ?thesis by (simp add: smallest_size_def measured_snoc)
  next
    case False
    then have ne: "cell_min ` set (measured cells) \<noteq> {}" by simp
    have "Min (insert (cell_min kv) (cell_min ` set (measured cells))) =
        min (cell_min kv) (Min (cell_min ` set (measured cells)))"
      using ne by (intro Min_insert) simp_all
    then have new: "smallest_size (cells @ [kv]) =
        Some (min (cell_min kv) (Min (cell_min ` set (measured cells))))"
      using True by (simp add: smallest_size_def measured_snoc del: Min_insert)
    have old: "smallest_size cells = Some (Min (cell_min ` set (measured cells)))"
      using False by (simp add: smallest_size_def)
    show ?thesis using True unfolding new old by (simp add: min_def)
  qed
qed

lemma smallest_id_snoc:
  "smallest_id (cells @ [kv]) =
     (if cell_min kv \<noteq> 0 \<and> (case smallest_size cells of None \<Rightarrow> True | Some m \<Rightarrow> cell_min kv < m)
      then fst kv else smallest_id cells)"
proof (cases "cell_min kv \<noteq> 0")
  case False
  then show ?thesis by (simp add: smallest_id_def smallest_size_snoc measured_snoc)
next
  case nz: True
  show ?thesis
  proof (cases "measured cells = []")
    case True
    then have "smallest_size cells = None" by (simp add: smallest_size_def)
    with nz True show ?thesis by (simp add: smallest_id_def smallest_size_snoc measured_snoc)
  next
    case False
    let ?m = "Min (cell_min ` set (measured cells))"
    have old: "smallest_size cells = Some ?m" using False by (simp add: smallest_size_def)
    have ge: "\<And>x. x \<in> set (measured cells) \<Longrightarrow> ?m \<le> cell_min x" by simp
    have "?m \<in> cell_min ` set (measured cells)" using False by (intro Min_in) simp_all
    then obtain y where y: "y \<in> set (measured cells)" "cell_min y = ?m" by auto
    show ?thesis
    proof (cases "cell_min kv < ?m")
      case True
      have "\<not> (\<exists>x\<in>set (measured cells). cell_min x = cell_min kv)"
        using True ge by fastforce
      then have "find (\<lambda>x. Some (cell_min x) = Some (cell_min kv)) (measured cells) = None"
        by (simp add: find_None_iff)
      then show ?thesis using True nz old
        by (simp add: smallest_id_def smallest_size_snoc measured_snoc find_snoc)
    next
      case False
      have "find (\<lambda>x. Some (cell_min x) = Some ?m) (measured cells) \<noteq> None"
        unfolding find_None_iff using y by blast
      then show ?thesis using False nz old
        by (auto simp add: smallest_id_def smallest_size_snoc measured_snoc find_snoc)
    qed
  qed
qed

lemma sizes_closed_Nil: "sizes_closed [] = size_acc_init"
  by (simp add: sizes_closed_def size_acc_init_def largest_size_def largest_id_def
      smallest_size_def smallest_id_def measured_def)

lemma sizes_closed_snoc: "sizes_closed (cells @ [kv]) = size_update (sizes_closed cells) kv"
  by (simp add: sizes_closed_def size_update_def largest_size_snoc largest_id_snoc
      smallest_size_snoc smallest_id_snoc max_def)

lemma culture_sizes_snoc:
  "culture_sizes (cells @ [kv]) acc =
     bind_err (culture_sizes cells acc) (\<lambda>s. size_step s kv)"
proof (induction cells arbitrary: acc)
  case Nil
  then show ?case by (cases "size_step acc kv") simp_all
next
  case (Cons c cells)
  then show ?case by (cases "size_step acc c") simp_all
qed

lemma culture_sizes_ok:
  "\<forall>kv\<in>set cells. \<exists>a\<in>set (snd kv). a \<noteq> 0 \<Longrightarrow>
   culture_sizes cells size_acc_init = Inr (sizes_closed cells)"
proof (induction cells rule: rev_induct)
  case Nil
  then show ?case by (simp add: sizes_closed_Nil)
next
  case (snoc kv cells)
  then show ?case by (simp add: culture_sizes_snoc size_step_ok sizes_closed_snoc)
qed

lemma culture_sizes_fail:
  "\<not> (\<forall>kv\<in>set cells. \<exists>a\<in>set (snd kv). a \<noteq> 0) \<Longrightarrow>
   culture_sizes cells acc = Inl ValueError \<or> culture_sizes cells acc = Inl StopIteration"
proof (induction cells arbitrary: acc)
  case Nil
  then show ?case by simp
next
  case (Cons c cells)
  show ?case
  proof (cases "\<exists>a\<in>set (snd c). a \<noteq> 0")
    case True
    with Cons.prems have "\<not> (\<forall>kv\<in>set cells. \<exists>a\<in>set (snd kv). a \<noteq> 0)" by simp
    from Cons.IH [OF this] True show ?thesis by (simp add: size_step_ok)
  next
    case False
    then show ?thesis by (simp add: size_step_fail)
  qed
qed

lemma culture_sizes_Inr:
  assumes "culture_sizes cells size_acc_init = Inr s"
  shows "(\<forall>kv\<in>set cells. \<exists>a\<in>set (snd kv). a \<noteq> 0) \<and> s = sizes_closed cells"
proof -
  have all: "\<forall>kv\<in>set cells. \<exists>a\<in>set (snd kv). a \<noteq> 0"
    using culture_sizes_fail [of cells size_acc_init] assms by fastforce
  with culture_sizes_ok [OF all] assms show ?thesis by simp
qed

lemma calc_culture_still:
  assumes "culture_positions positional_data t culture_acc_init = Inr m" "displacements m = []"
    and "culture_sizes area_data size_acc_init = Inr s"
    and "area_of_frame \<noteq> 0" "final_sizes s \<noteq> []"
  shows "calc_culture_cell_statistics positional_data area_data t area_of_frame units =
         Inr (still_report s area_of_frame units)"
  using assms
  by (simp add: calc_culture_cell_statistics_def py_div_def dict_set_def still_report_def)

lemma calc_culture_Inr:
  assumes "calc_culture_cell_statistics positional_data area_data t area_of_frame units = Inr stats"
  shows "\<exists>s st. culture_sizes area_data size_acc_init = Inr s \<and>
           stats = foldl dict_set st (still_report s area_of_frame units)"
  using assms
  by (auto simp add: calc_culture_cell_statistics_def bind_err_def py_div_def still_report_def
      split: sum.splits if_splits)

lemma map_of_dict_set: "map_of (dict_set d kv) = (map_of d)(fst kv \<mapsto> snd kv)"
  by (simp add: dict_set_def update_conv')

lemma still_report_lookups:
  "map_of (foldl dict_set st (still_report s a units)) (''Largest Cell ('' @ units @ ''^2)'') =
     Some (Num (max_cell_size s))"
  "map_of (foldl dict_set st (still_report s a units)) ''Largest Cell's ID'' =
     Some (CellId (max_cell_id s))"
  "map_of (foldl dict_set st (still_report s a units)) (''Smallest Cell ('' @ units @ ''^2)'') =
     Some (case min_cell_size s of None \<Rightarrow> NoneValue | Some a \<Rightarrow> Num a)"
  "map_of (foldl dict_set st (still_report s a units)) ''Smallest Cell's ID'' =
     Some (CellId (min_cell_id s))"
  by (simp_all add: still_report_def map_of_dict_set)

lemma culture_loop_motion_ok:
  "culture_loop origin t prev ps dists acc = Inr acc' \<Longrightarrow> motion_ok acc \<Longrightarrow> motion_ok acc'"
proof (induction ps arbitrary: prev dists acc)
  case Nil
  then show ?case by simp
next
  case (Cons p ps)
  show ?case
  proof (cases "fst p \<noteq> 0 \<or> snd p \<noteq> 0")
    case False
    with Cons.prems Cons.IH show ?thesis by simp
  next
    case True
    with Cons.prems(1) have t: "t \<noteq> 0" by (auto simp add: py_div_def split: if_splits)
    show ?thesis
    proof (cases "ps = []")
      case True
      with Cons.prems \<open>fst p \<noteq> 0 \<or> snd p \<noteq> 0\<close> t show ?thesis
        using direction_angle_range [of origin p]
        by (auto simp add: py_div_def motion_ok_def)
    next
      case False
      have "motion_ok (acc\<lparr>speeds := speeds acc @ [math_dist prev p / t]\<rparr>)"
        using Cons.prems(2) by (simp add: motion_ok_def)
      moreover have "culture_loop origin t p ps (dists @ [math_dist prev p])
          (acc\<lparr>speeds := speeds acc @ [math_dist prev p / t]\<rparr>) = Inr acc'"
        using Cons.prems(1) \<open>fst p \<noteq> 0 \<or> snd p \<noteq> 0\<close> t False by (simp add: py_div_def)
      ultimately show ?thesis by (rule Cons.IH [rotated])
    qed
  qed
qed

lemma culture_loop_total:
  "t \<noteq> 0 \<Longrightarrow> \<exists>acc'. culture_loop origin t prev ps dists acc = Inr acc'"
  by (induction ps arbitrary: prev dists acc) (simp_all add: py_div_def)

lemma culture_positions_motion_ok:
  "culture_positions cells t acc = Inr acc' \<Longrightarrow> motion_ok acc \<Longrightarrow> motion_ok acc'"
proof (induction cells t acc rule: culture_positions.induct)
  case (4 key origin rest cells t acc)
  from "4.prems"(1) obtain a where
    a: "culture_loop origin t origin rest [] acc = Inr a" "culture_positions cells t a = Inr acc'"
    by (cases "culture_loop origin t origin rest [] acc") simp_all
  from culture_loop_motion_ok [OF a(1) "4.prems"(2)] have "motion_ok a" .
  with "4.IH" a show ?case by simp
qed simp_all

lemma culture_positions_total:
  "t \<noteq> 0 \<Longrightarrow> list_all (\<lambda>kv. snd kv \<noteq> Some []) cells \<Longrightarrow>
   \<exists>acc'. culture_positions cells t acc = Inr acc'"
proof (induction cells t acc rule: culture_positions.induct)
  case (4 key origin rest cells t acc)
  from culture_loop_total [OF "4.prems"(1)] obtain a where
    a: "culture_loop origin t origin rest [] acc = Inr a" by blast
  with "4.IH" [of a] "4.prems" show ?case by simp
qed simp_all

lemma motion_ok_init: "motion_ok culture_acc_init"
  by (simp add: motion_ok_def culture_acc_init_def)

lemma average_in_range:
  fixes xs :: "real list"
  assumes "xs \<noteq> []" "list_all (\<lambda>a. 0 \<le> a \<and> a \<le> c) xs"
  shows "0 \<le> sum_list xs / real (length xs) \<and> sum_list xs / real (length xs) \<le> c"
proof -
  have "list_all (\<lambda>a. 0 \<le> a \<and> a \<le> c) xs \<Longrightarrow> xs \<noteq> [] \<Longrightarrow>
      0 \<le> sum_list xs \<and> sum_list xs \<le> c * real (length xs)"
  proof (induction xs)
    case Nil
    then show ?case by simp
  next
    case (Cons a xs)
    then show ?case by (cases "xs = []") (auto simp add: algebra_simps)
  qed
  with assms have s: "0 \<le> sum_list xs" "sum_list xs \<le> c * real (length xs)" by simp_all
  have n: "0 < real (length xs)" using assms(1) by simp
  from s n show ?thesis by (simp add: pos_divide_le_eq)
qed

lemma movement_stats_total:
  assumes "motion_ok m" "displacements m \<noteq> []" "growth s \<noteq> []"
  shows "\<exists>st. movement_stats m s units = Inr st"
proof -
  from assms have ne: "angle_of_direction m \<noteq> []" "final_distances m \<noteq> []" "speeds m \<noteq> []"
    by (auto simp add: motion_ok_def)
  from assms(1) have "list_all (\<lambda>a. 0 \<le> a \<and> a \<le> 360) (angle_of_direction m)"
    by (simp add: motion_ok_def)
  from average_in_range [OF ne(1) this] have
    "0 \<le> sum_list (angle_of_direction m) / real (length (angle_of_direction m))"
    "sum_list (angle_of_direction m) / real (length (angle_of_direction m)) \<le> 360" by simp_all
  from compass_in_range [OF this] show ?thesis
    using ne assms(2,3)
    by (simp add: movement_stats_def py_div_def py_max_Max py_min_Min)
qed

lemma still_report_keys:
  "map fst (still_report s a units) = still_keys units"
  by (simp add: still_report_def still_keys_def)

lemma still_report_no_movement:
  "list_all (\<lambda>k. map_of (still_report s a units) k = None) (movement_keys units)"
  by (simp add: still_report_def movement_keys_def)

lemma calc_culture_total:
  assumes "culture_inputs_ok positional_data area_data t area_of_frame"
  shows "\<exists>stats. calc_culture_cell_statistics positional_data area_data t area_of_frame units = Inr stats"
proof -
  from assms have t: "t \<noteq> 0" and a: "area_of_frame \<noteq> 0" and ne: "area_data \<noteq> []"
    and pos: "list_all (\<lambda>kv. snd kv \<noteq> Some []) positional_data"
    and nz: "\<forall>kv\<in>set area_data. \<exists>a\<in>set (snd kv). a \<noteq> 0"
    by (simp_all add: culture_inputs_ok_def list_all_iff list_ex_iff)
  from culture_positions_total [OF t pos] obtain m where
    m: "culture_positions positional_data t culture_acc_init = Inr m" by blast
  from culture_positions_motion_ok [OF m motion_ok_init] have ok: "motion_ok m" .
  have s: "culture_sizes area_data size_acc_init = Inr (sizes_closed area_data)"
    using nz by (rule culture_sizes_ok)
  have fs: "final_sizes (sizes_closed area_data) \<noteq> []" "growth (sizes_closed area_data) \<noteq> []"
    using ne by (simp_all add: sizes_closed_def)
  show ?thesis
  proof (cases "displacements m = []")
    case True
    from calc_culture_still [OF m True s a fs(1)] show ?thesis by blast
  next
    case False
    from movement_stats_total [OF ok False fs(2)] obtain st where
      "movement_stats m (sizes_closed area_data) units = Inr st" by blast
    with m s a fs False show ?thesis
      by (simp add: calc_culture_cell_statistics_def py_div_def)
  qed
qed

text \<open>
  A culture without displacements. Let the position loop finish with no displacement
  recorded, the culture hold at least one cell and the frame area be non-zero. Then the
  computation never raises ZeroDivisionError; it returns a report when every area series
  has a non-zero value; and every report it returns has exactly the keys confluency,
  largest cell and id, smallest cell and id, average final size, in this order, and none
  of the ten movement keys.
\<close>

lemma still_culture_report:
  assumes "culture_positions positional_data t culture_acc_init = Inr m" "displacements m = []"
    and "area_data \<noteq> []" "area_of_frame \<noteq> 0"
  shows "calc_culture_cell_statistics positional_data area_data t area_of_frame units
           \<noteq> Inl ZeroDivisionError \<and>
         (list_all (\<lambda>kv. list_ex (\<lambda>a. a \<noteq> 0) (snd kv)) area_data \<longrightarrow>
            (\<exists>stats. calc_culture_cell_statistics positional_data area_data t area_of_frame units
               = Inr stats)) \<and>
         (\<forall>stats. calc_culture_cell_statistics positional_data area_data t area_of_frame units
               = Inr stats \<longrightarrow>
            map fst stats = still_keys units \<and>
            list_all (\<lambda>k. map_of stats k = None) (movement_keys units))"
proof (cases "\<forall>kv\<in>set area_data. \<exists>a\<in>set (snd kv). a \<noteq> 0")
  case True
  then have s: "culture_sizes area_data size_acc_init = Inr (sizes_closed area_data)"
    by (rule culture_sizes_ok)
  have fs: "final_sizes (sizes_closed area_data) \<noteq> []"
    using assms(3) by (simp add: sizes_closed_def)
  from calc_culture_still [OF assms(1,2) s assms(4) fs, of units] show ?thesis
    by (simp add: still_report_keys still_report_no_movement)
next
  case False
  from culture_sizes_fail [OF this, of size_acc_init] assms(1) have
    "calc_culture_cell_statistics positional_data area_data t area_of_frame units = Inl ValueError \<or>
     calc_culture_cell_statistics positional_data area_data t area_of_frame units = Inl StopIteration"
    by (auto simp add: calc_culture_cell_statistics_def)
  with False show ?thesis by (auto simp add: list_all_iff list_ex_iff)
qed

text \<open>
  What the size loop reports. The largest cell is the maximum of \<open>0\<close> and the cells'
  maxima, with the id of the first cell that attains it (id \<open>0\<close> when no maximum exceeds
  \<open>0\<close>): the comparison is strict, so the first cell wins ties. The smallest cell is the
  least minimum among the cells whose minimum is non-zero, with the id of the first such
  cell that attains it, or \<open>None\<close> with id \<open>0\<close> when every cell's minimum is \<open>0\<close>.
\<close>

lemma culture_extrema:
  "(culture_inputs_ok positional_data area_data t area_of_frame \<longrightarrow>
      (\<exists>stats. calc_culture_cell_statistics positional_data area_data t area_of_frame units
         = Inr stats)) \<and>
   (\<forall>stats. calc_culture_cell_statistics positional_data area_data t area_of_frame units
         = Inr stats \<longrightarrow>
      map_of stats (''Largest Cell ('' @ units @ ''^2)'') = Some (Num (largest_size area_data)) \<and>
      map_of stats ''Largest Cell's ID'' = Some (CellId (largest_id area_data)) \<and>
      map_of stats (''Smallest Cell ('' @ units @ ''^2)'') =
        Some (case smallest_size area_data of None \<Rightarrow> NoneValue | Some a \<Rightarrow> Num a) \<and>
      map_of stats ''Smallest Cell's ID'' = Some (CellId (smallest_id area_data)))"
proof (intro conjI allI impI)
  assume "culture_inputs_ok positional_data area_data t area_of_frame"
  then show "\<exists>stats. calc_culture_cell_statistics positional_data area_data t area_of_frame units
      = Inr stats"
    by (rule calc_culture_total)
next
  fix stats
  assume "calc_culture_cell_statistics positional_data area_data t area_of_frame units = Inr stats"
  from calc_culture_Inr [OF this] obtain s st where
    s: "culture_sizes area_data size_acc_init = Inr s" and
    stats: "stats = foldl dict_set st (still_report s area_of_frame units)" by blast
  from culture_sizes_Inr [OF s] have closed: "s = sizes_closed area_data" by simp
  show "map_of stats (''Largest Cell ('' @ units @ ''^2)'') = Some (Num (largest_size area_data))"
    unfolding stats still_report_lookups closed by (simp add: sizes_closed_def)
  show "map_of stats ''Largest Cell's ID'' = Some (CellId (largest_id area_data))"
    unfolding stats still_report_lookups closed by (simp add: sizes_closed_def)
  show "map_of stats (''Smallest Cell ('' @ units @ ''^2)'') =
      Some (case smallest_size area_data of None \<Rightarrow> NoneValue | Some a \<Rightarrow> Num a)"
    unfolding stats still_report_lookups closed by (simp add: sizes_closed_def)
  show "map_of stats ''Smallest Cell's ID'' = Some (CellId (smallest_id area_data))"
    unfolding stats still_report_lookups closed by (simp add: sizes_closed_def)
qed

text \<open>
  C2. A culture of one cell tracked for a single frame whose area was not measured (area
  \<open>0\<close>): the position loop records no displacement, there is a cell and the frame area is
  non-zero, yet no report is produced: \<^verbatim>\<open>next(filter(...))\<close> finds no non-zero area and
  raises StopIteration.
\<close>

theorem still_culture_all_zero_area_raises:
  "culture_positions [(1, Some [(1, 1)])] 1 culture_acc_init = Inr culture_acc_init \<and>
   displacements culture_acc_init = [] \<and>
   calc_culture_cell_statistics [(1, Some [(1, 1)])] [(1, [0])] 1 20 ''mm'' = Inl StopIteration"
  by (simp add: calc_culture_cell_statistics_def culture_acc_init_def size_acc_init_def
      size_step_def py_min_def py_max_def py_index_def next_nonzero_def)

text \<open>
  C5. The smallest cell reported is not the smallest non-zero area. Cell 1 with areas
  \<open>[0, 5]\<close> has the smallest non-zero area \<open>5\<close>, yet the report names cell 2 with \<open>7\<close>: a
  cell whose minimum is \<open>0\<close> is skipped as a whole, its zeros are not ignored. And a
  culture whose only cell has no non-zero area does not get a report with a null minimum:
  \<^verbatim>\<open>next(filter(...))\<close> raises StopIteration.
\<close>

theorem culture_smallest_skips_cells_with_zero:
  "calc_culture_cell_statistics [] [(1, [0, 5]), (2, [7, 8])] 1 1 ''mm'' =
     Inr [(''Final Frame's Confluency (%)'', Num 13),
          (''Largest Cell (mm^2)'', Num 8),
          (''Largest Cell's ID'', CellId 2),
          (''Smallest Cell (mm^2)'', Num 7),
          (''Smallest Cell's ID'', CellId 2),
          (''Average Final Size of Cell (mm^2)'', Num (13 / 2))] \<and>
   calc_culture_cell_statistics [] [(1, [0, 0])] 1 1 ''mm'' = Inl StopIteration"
  by (simp add: calc_culture_cell_statistics_def culture_acc_init_def size_acc_init_def
      size_step_def py_min_def py_max_def py_index_def next_nonzero_def py_div_def dict_set_def)

section \<open>The culture raw-data CSV export\<close>

text \<open>
  C8. When the file name ends in \<open>.csv\<close> and the file exists, the culture raw-data export
  raises "File already exists" and leaves the file system as it found it: the test comes
  before \<^verbatim>\<open>open\<close>, so nothing is appended or overwritten, whatever the file holds.
\<close>

theorem culture_csv_refuses_existing_file:
  assumes "endswith filename ''.csv''" "fs filename = Some content"
  shows "culture_to_csv_file filename positional_data area_data positional_headers area_headers fs =
         (Some (Exception ''File already exists''), fs)"
  using assms by (simp add: culture_to_csv_file_def)

theorem culture_csv_refuses_existing_file_witness:
  "culture_to_csv_file ''cells.csv'' [(1, Some [(1, 2)])] [(1, [3])] None None
     (Map.empty(''cells.csv'' \<mapsto> [[CsvText ''old'']])) =
   (Some (Exception ''File already exists''), Map.empty(''cells.csv'' \<mapsto> [[CsvText ''old'']]))"
  by (rule culture_csv_refuses_existing_file) (simp_all add: endswith_def)

lemma culture_csv_creates_fresh_file:
  "culture_to_csv_file ''cells.csv'' [(1, Some [(1, 2)])] [(1, [3])] None (Some [''h''])
     Map.empty =
   (None, Map.empty(''cells.csv'' \<mapsto> [[CsvText ''h''], [CsvId 1, CsvNum 1, CsvNum 2, CsvNum 3]]))"
  by (simp add: culture_to_csv_file_def endswith_def)

end
